theory Spec2Isabelle
  imports Main "HOL-Library.Sublist" "HOL-Library.AList" "HOL-Library.Multiset"
begin

section \<open>Values, errors and the state enumeration\<close>

text \<open>
  The store of \<^verbatim>\<open>src/data/database.py\<close> is a thin Python layer over one SQLite
  connection. A value that crosses that layer is a Python object bound to a \<^verbatim>\<open>?\<close>
  of an SQL statement, or a value read back from a column. The model has the storage
  classes NULL, INTEGER and TEXT (Python \<^verbatim>\<open>None\<close>, \<^verbatim>\<open>int\<close>, \<^verbatim>\<open>str\<close>); REAL
  and BLOB values (Python floats and bytes) are outside the model.
\<close>

datatype val = VNull | VInt int | VText string

text \<open>
  The exceptions the code can raise: the generic \<^verbatim>\<open>Exception\<close> that the access layer
  raises itself, \<^verbatim>\<open>sqlite3.IntegrityError\<close> for a constraint of the schema, the
  \<^verbatim>\<open>OverflowError\<close> of the driver for an integer that does not fit 64 bits, and the
  \<^verbatim>\<open>TypeError\<close> of Python for a call whose arguments cannot be bound. Each carries
  its message.
\<close>

datatype error = Exception string | IntegrityError string | OverflowError string | TypeError string

definition SEARCHING :: string where "SEARCHING = ''SEARCHING''"
definition DOWNLOADING :: string where "DOWNLOADING = ''DOWNLOADING''"
definition SEEDING :: string where "SEEDING = ''SEEDING''"
definition COMPLETED :: string where "COMPLETED = ''COMPLETED''"
definition DELETING :: string where "DELETING = ''DELETING''"
definition PAUSED :: string where "PAUSED = ''PAUSED''"

definition get_states :: "string list" where
  "get_states = [SEARCHING, DOWNLOADING, SEEDING, COMPLETED, DELETING, PAUSED]"

subsection \<open>Rendering values as Python does\<close>

definition digit_char :: "nat \<Rightarrow> char" where
  "digit_char d = ''0123456789'' ! (d mod 10)"

function dec_nat :: "nat \<Rightarrow> string" where
  "dec_nat n = (if n < 10 then [digit_char n] else dec_nat (n div 10) @ [digit_char (n mod 10)])"
  by pat_completeness auto
termination
  by (relation "measure (\<lambda>n. n)") auto

declare dec_nat.simps [simp del]

definition dec_int :: "int \<Rightarrow> string" where
  "dec_int i = (if i < 0 then CHR ''-'' # dec_nat (nat (- i)) else dec_nat (nat i))"

text \<open>\<^verbatim>\<open>f"{v}"\<close>: the text an f-string puts in place of a value.\<close>

fun py_str :: "val \<Rightarrow> string" where
  "py_str VNull = ''None''"
| "py_str (VInt i) = dec_int i"
| "py_str (VText s) = s"

text \<open>
  \<^verbatim>\<open>f"{xs}"\<close> for a list of strings is the \<^verbatim>\<open>repr\<close> of the list. The lists that
  the code formats hold plain identifiers, whose \<^verbatim>\<open>repr\<close> is the identifier in single
  quotes.
\<close>

definition py_repr_str :: "string \<Rightarrow> string" where
  "py_repr_str s = [CHR 0x27] @ s @ [CHR 0x27]"

fun join :: "string \<Rightarrow> string list \<Rightarrow> string" where
  "join sep [] = []"
| "join sep [x] = x"
| "join sep (x # y # ys) = x @ sep @ join sep (y # ys)"

definition py_repr_list :: "string list \<Rightarrow> string" where
  "py_repr_list xs = ''['' @ join '', '' (map py_repr_str xs) @ '']''"

text \<open>Python's \<^verbatim>\<open>sub in s\<close> on strings: \<open>sub\<close> occurs in \<open>s\<close> as a contiguous piece.\<close>

fun py_in_str :: "string \<Rightarrow> string \<Rightarrow> bool" where
  "py_in_str sub [] = (sub = [])"
| "py_in_str sub (c # cs) = (prefix sub (c # cs) \<or> py_in_str sub cs)"

subsection \<open>Binding and column affinity\<close>

text \<open>
  The driver refuses to bind a Python integer outside the signed 64-bit range; it raises
  \<^verbatim>\<open>OverflowError\<close> from inside \<^verbatim>\<open>cur.execute\<close>, before the statement runs.
\<close>

definition in_int64 :: "int \<Rightarrow> bool" where
  "in_int64 i = (- (2 ^ 63) \<le> i \<and> i < 2 ^ 63)"

fun bindable :: "val \<Rightarrow> bool" where
  "bindable (VInt i) = in_int64 i"
| "bindable _ = True"

definition bind_error :: "val list \<Rightarrow> error option" where
  "bind_error params =
     (if list_all bindable params then None
      else Some (OverflowError ''Python int too large to convert to SQLite INTEGER''))"

text \<open>
  SQLite converts a value to the affinity of the column that stores it, and a bound
  parameter to the affinity of the column it is compared with. TEXT affinity turns an
  integer into its decimal text. INTEGER affinity turns a text that is an integer literal
  (optional sign, digits, white space around) into that integer, and keeps any other
  text as text. A text that SQLite reads as a real literal (a decimal point, an exponent,
  an integer beyond 64 bits) becomes a REAL there; the model keeps it as text, and no
  result below depends on what such a text is converted to.
\<close>

datatype affinity = INTEGER | TEXT

definition sqlite_isspace :: "char \<Rightarrow> bool" where
  "sqlite_isspace c = (c \<in> set [CHR 0x20, CHR 0x09, CHR 0x0A, CHR 0x0B, CHR 0x0C, CHR 0x0D])"

definition is_digit :: "char \<Rightarrow> bool" where
  "is_digit c = (c \<in> set ''0123456789'')"

definition digits_value :: "string \<Rightarrow> int" where
  "digits_value ds = foldl (\<lambda>acc c. 10 * acc + (of_char c - 48)) 0 ds"

definition int_literal :: "string \<Rightarrow> int option" where
  "int_literal s =
     (let t = rev (dropWhile sqlite_isspace (rev (dropWhile sqlite_isspace s)));
          (sign, ds) = (case t of
                          c # r \<Rightarrow> if c = CHR ''-'' then (- 1, r)
                                   else if c = CHR ''+'' then (1, r) else (1, t)
                        | [] \<Rightarrow> (1, t))
      in if ds \<noteq> [] \<and> list_all is_digit ds then Some (sign * digits_value ds) else None)"

fun apply_affinity :: "affinity \<Rightarrow> val \<Rightarrow> val" where
  "apply_affinity TEXT (VInt i) = VText (dec_int i)"
| "apply_affinity INTEGER (VText s) =
     (case int_literal s of
        Some i \<Rightarrow> if in_int64 i then VInt i else VText s
      | None \<Rightarrow> VText s)"
| "apply_affinity _ v = v"

text \<open>
  The \<^verbatim>\<open>=\<close> of a WHERE or ON clause: NULL equals nothing, and values of different
  storage classes are different.
\<close>

definition sql_eq :: "val \<Rightarrow> val \<Rightarrow> bool" where
  "sql_eq a b = (a \<noteq> VNull \<and> b \<noteq> VNull \<and> a = b)"

section \<open>The schema\<close>

text \<open>
  \<^verbatim>\<open>create_schema\<close> creates three tables and one view. Every table has the column
  \<^verbatim>\<open>"id" INTEGER PRIMARY KEY AUTOINCREMENT\<close> first; the other columns are listed here
  with their affinity, their NOT NULL flag and their default, and the UNIQUE constraints
  with the columns they span. The foreign key of \<^verbatim>\<open>tv_show_seasons.show_id\<close> is
  declared in the schema, but \<^verbatim>\<open>__init__\<close> opens the connection without
  \<^verbatim>\<open>PRAGMA foreign_keys\<close>, and SQLite checks foreign keys only on a connection that
  switched them on: the engine below has no foreign-key check.
\<close>

record column =
  cname :: string
  caff :: affinity
  cnotnull :: bool
  cdefault :: val

record table_def =
  tname :: string
  tcols :: "column list"
  tunique :: "string list list"

definition movies_def :: table_def where
  "movies_def = \<lparr>tname = ''movies'',
     tcols = [\<lparr>cname = ''name'', caff = TEXT, cnotnull = True, cdefault = VNull\<rparr>,
              \<lparr>cname = ''max_size_mb'', caff = INTEGER, cnotnull = True, cdefault = VNull\<rparr>,
              \<lparr>cname = ''resolution_profile'', caff = TEXT, cnotnull = True, cdefault = VNull\<rparr>,
              \<lparr>cname = ''state'', caff = TEXT, cnotnull = True, cdefault = VText SEARCHING\<rparr>,
              \<lparr>cname = ''hash'', caff = TEXT, cnotnull = False, cdefault = VNull\<rparr>],
     tunique = [[''name'']]\<rparr>"

definition tv_shows_def :: table_def where
  "tv_shows_def = \<lparr>tname = ''tv_shows'',
     tcols = [\<lparr>cname = ''name'', caff = TEXT, cnotnull = True, cdefault = VNull\<rparr>,
              \<lparr>cname = ''max_episode_size_mb'', caff = INTEGER, cnotnull = True, cdefault = VNull\<rparr>,
              \<lparr>cname = ''resolution_profile'', caff = TEXT, cnotnull = True, cdefault = VNull\<rparr>,
              \<lparr>cname = ''state'', caff = TEXT, cnotnull = True, cdefault = VText SEARCHING\<rparr>],
     tunique = [[''name'']]\<rparr>"

definition tv_show_seasons_def :: table_def where
  "tv_show_seasons_def = \<lparr>tname = ''tv_show_seasons'',
     tcols = [\<lparr>cname = ''show_id'', caff = INTEGER, cnotnull = False, cdefault = VNull\<rparr>,
              \<lparr>cname = ''season_number'', caff = INTEGER, cnotnull = True, cdefault = VNull\<rparr>,
              \<lparr>cname = ''season_number_episodes'', caff = INTEGER, cnotnull = True, cdefault = VNull\<rparr>,
              \<lparr>cname = ''state'', caff = TEXT, cnotnull = True, cdefault = VText SEARCHING\<rparr>,
              \<lparr>cname = ''hash'', caff = TEXT, cnotnull = False, cdefault = VNull\<rparr>],
     tunique = [[''show_id'', ''season_number'']]\<rparr>"

definition column_names :: "table_def \<Rightarrow> string list" where
  "column_names d = ''id'' # map cname (tcols d)"

definition col_affinity :: "table_def \<Rightarrow> string \<Rightarrow> affinity" where
  "col_affinity d k = (case find (\<lambda>c. cname c = k) (tcols d) of Some c \<Rightarrow> caff c | None \<Rightarrow> INTEGER)"

section \<open>The state of the store\<close>

text \<open>
  A stored row maps column names to values, in the order of the columns. A table is its
  rows in insertion order together with the largest row id it ever handed out (the entry
  of \<^verbatim>\<open>sqlite_sequence\<close> that AUTOINCREMENT keeps). The state of the store is what
  its one connection sees after \<^verbatim>\<open>create_schema\<close>: the three tables, and the list of
  the statements handed to \<^verbatim>\<open>cur.execute\<close> so far, which makes "before any statement
  is issued" a property of the state. Every write of the code is followed by
  \<^verbatim>\<open>commit\<close> on the same connection and all reads go through that connection, so
  committed and uncommitted contents are not told apart.
\<close>

type_synonym row = "(string \<times> val) list"

record table =
  trows :: "row list"
  tseq :: int

record connection =
  movies :: table
  tv_shows :: table
  tv_show_seasons :: table
  executed :: "string list"

definition lookup :: "row \<Rightarrow> string \<Rightarrow> val" where
  "lookup r c = (case map_of r c of Some v \<Rightarrow> v | None \<Rightarrow> VNull)"

definition execute :: "connection \<Rightarrow> string \<Rightarrow> connection" where
  "execute c sql = c\<lparr>executed := executed c @ [sql]\<rparr>"

section \<open>The statements of the code, as SQLite runs them\<close>

subsection \<open>Constraints\<close>

text \<open>
  A statement that writes a row checks the constraints on the columns it writes: an
  INSERT writes all of them, an UPDATE the columns of its SET clause. NOT NULL is checked
  first, column by column, then each UNIQUE key that has a written column. A violation
  raises \<^verbatim>\<open>sqlite3.IntegrityError\<close> with SQLite's message.
\<close>

definition notnull_violation :: "table_def \<Rightarrow> string list \<Rightarrow> row \<Rightarrow> column option" where
  "notnull_violation d written r =
     find (\<lambda>c. cname c \<in> set written \<and> cnotnull c \<and> lookup r (cname c) = VNull) (tcols d)"

text \<open>
  Two rows collide on a UNIQUE key when they agree on every column of the key and none
  of these values is NULL: for a UNIQUE constraint SQLite takes every NULL as different
  from every other value, another NULL included.
\<close>

definition same_key :: "string list \<Rightarrow> row \<Rightarrow> row \<Rightarrow> bool" where
  "same_key key r other =
     (list_all (\<lambda>k. lookup r k \<noteq> VNull) key \<and> list_all (\<lambda>k. lookup other k = lookup r k) key)"

definition unique_violation :: "table_def \<Rightarrow> string list \<Rightarrow> row list \<Rightarrow> row \<Rightarrow> string list option" where
  "unique_violation d written others r =
     find (\<lambda>key. list_ex (\<lambda>k. k \<in> set written) key \<and> list_ex (same_key key r) others) (tunique d)"

definition constraint_error :: "table_def \<Rightarrow> string list \<Rightarrow> row list \<Rightarrow> row \<Rightarrow> error option" where
  "constraint_error d written others r =
     (case notnull_violation d written r of
        Some c \<Rightarrow> Some (IntegrityError (''NOT NULL constraint failed: '' @ tname d @ ''.'' @ cname c))
      | None \<Rightarrow>
         (case unique_violation d written others r of
            Some key \<Rightarrow> Some (IntegrityError (''UNIQUE constraint failed: ''
                                  @ join '', '' (map (\<lambda>k. tname d @ ''.'' @ k) key)))
          | None \<Rightarrow> None))"

subsection \<open>INSERT\<close>

text \<open>
  With AUTOINCREMENT the new row id is one more than the largest id the table ever held.
  The columns the statement names get the bound values, converted to the column's
  affinity; the others get their default. A violated constraint aborts the statement and
  leaves the table as it was. (The id space of 63 bits is taken as not exhausted.)
\<close>

definition row_ids :: "row list \<Rightarrow> int list" where
  "row_ids rs = concat (map (\<lambda>r. case lookup r ''id'' of VInt i \<Rightarrow> [i] | _ \<Rightarrow> []) rs)"

definition next_rowid :: "table \<Rightarrow> int" where
  "next_rowid t = fold max (row_ids (trows t)) (tseq t) + 1"

definition new_row :: "table_def \<Rightarrow> int \<Rightarrow> (string \<times> val) list \<Rightarrow> row" where
  "new_row d rowid supplied =
     (''id'', VInt rowid) #
     map (\<lambda>c. (cname c, case map_of supplied (cname c) of
                           Some v \<Rightarrow> apply_affinity (caff c) v
                         | None \<Rightarrow> cdefault c)) (tcols d)"

definition sql_insert :: "table_def \<Rightarrow> table \<Rightarrow> (string \<times> val) list \<Rightarrow> error + table" where
  "sql_insert d t supplied =
     (let r = new_row d (next_rowid t) supplied
      in case constraint_error d (column_names d) (trows t) r of
           Some e \<Rightarrow> Inl e
         | None \<Rightarrow> Inr \<lparr>trows = trows t @ [r], tseq = next_rowid t\<rparr>)"

subsection \<open>UPDATE and DELETE by id\<close>

text \<open>
  \<^verbatim>\<open>WHERE id=?\<close>: the parameter is converted to the INTEGER affinity of the id column
  and compared with the id of each row.
\<close>

definition id_matches :: "val \<Rightarrow> row \<Rightarrow> bool" where
  "id_matches idp r = sql_eq (lookup r ''id'') (apply_affinity INTEGER idp)"

definition set_columns :: "table_def \<Rightarrow> (string \<times> val) list \<Rightarrow> row \<Rightarrow> row" where
  "set_columns d sets r =
     map (\<lambda>(k, v). (k, case map_of sets k of
                          Some v' \<Rightarrow> apply_affinity (col_affinity d k) v'
                        | None \<Rightarrow> v)) r"

fun first_error :: "error option list \<Rightarrow> error option" where
  "first_error [] = None"
| "first_error (Some e # _) = Some e"
| "first_error (None # es) = first_error es"

text \<open>
  \<^verbatim>\<open>UPDATE t SET k1=?, ..., kn=? WHERE id=?\<close>: every matching row gets the named
  columns set, each value converted to its column's affinity. The new row is checked
  against NOT NULL and, for UNIQUE, against the rows the statement leaves alone; a
  violation aborts the statement and leaves the table as it was. No matching row is no
  error.
\<close>

definition sql_update :: "table_def \<Rightarrow> table \<Rightarrow> (string \<times> val) list \<Rightarrow> val \<Rightarrow> error + table" where
  "sql_update d t sets idp =
     (let hit = filter (id_matches idp) (trows t);
          rest = filter (\<lambda>r. \<not> id_matches idp r) (trows t)
      in case first_error (map (\<lambda>r. constraint_error d (map fst sets) rest (set_columns d sets r)) hit) of
           Some e \<Rightarrow> Inl e
         | None \<Rightarrow> Inr (t\<lparr>trows := map (\<lambda>r. if id_matches idp r then set_columns d sets r else r)
                                       (trows t)\<rparr>))"

definition sql_delete :: "table \<Rightarrow> val \<Rightarrow> table" where
  "sql_delete t idp = t\<lparr>trows := filter (\<lambda>r. \<not> id_matches idp r) (trows t)\<rparr>"

subsection \<open>SELECT and the view\<close>

text \<open>
  A cursor after a SELECT: the names of the result columns (\<^verbatim>\<open>cursor.description\<close>)
  and the result rows as tuples of values.
\<close>

record cursor =
  description :: "string list"
  fetched :: "val list list"

definition select_columns :: "string list \<Rightarrow> row list \<Rightarrow> cursor" where
  "select_columns names rs = \<lparr>description = names, fetched = map (\<lambda>r. map (lookup r) names) rs\<rparr>"

text \<open>
  \<^verbatim>\<open>tv_shows_with_seasons_view\<close>: \<^verbatim>\<open>tv_shows INNER JOIN tv_show_seasons ON\<close>
  \<^verbatim>\<open>tv_shows.id = tv_show_seasons.show_id\<close>, with the eight columns of its SELECT list:
  for every show, one row for each season whose \<^verbatim>\<open>show_id\<close> equals the id of the show.
  The statements that read the view have no ORDER BY, and SQLite returns the joined rows
  in the order that its query planner picks. The view is therefore a multiset of rows,
  and a read of the view gives a multiset: what \<^verbatim>\<open>fetchall\<close> returns is a list of
  these rows in an order that the model leaves open.
\<close>

definition view_row :: "row \<Rightarrow> row \<Rightarrow> row" where
  "view_row sh se =
     [(''show_id'', lookup sh ''id''),
      (''show_name'', lookup sh ''name''),
      (''show_state'', lookup sh ''state''),
      (''season_id'', lookup se ''id''),
      (''season_number'', lookup se ''season_number''),
      (''season_number_episodes'', lookup se ''season_number_episodes''),
      (''season_state'', lookup se ''state''),
      (''season_hash'', lookup se ''hash'')]"

definition view_columns :: "string list" where
  "view_columns = [''show_id'', ''show_name'', ''show_state'', ''season_id'', ''season_number'',
                   ''season_number_episodes'', ''season_state'', ''season_hash'']"

definition tv_shows_with_seasons_view :: "connection \<Rightarrow> row multiset" where
  "tv_shows_with_seasons_view c =
     (\<Sum>sh\<in>#mset (trows (tv_shows c)).
        image_mset (view_row sh)
          (filter_mset (\<lambda>se. sql_eq (lookup sh ''id'') (lookup se ''show_id''))
                       (mset (trows (tv_show_seasons c)))))"

section \<open>The access layer\<close>

text \<open>
  Every operation takes the state of the store and returns what the call returns, or
  the exception it raises, together with the state it leaves. The connection's
  \<^verbatim>\<open>row_factory\<close> is \<^verbatim>\<open>dict_factory\<close> from \<^verbatim>\<open>__init__\<close> on, and the operations
  that assign it assign the same function again.
\<close>

definition dict_factory :: "string list \<Rightarrow> val list \<Rightarrow> row" where
  "dict_factory descr tuple =
     fold (\<lambda>(idx, col) output. AList.update col (tuple ! idx) output) (enumerate 0 descr) []"

definition fetchall :: "cursor \<Rightarrow> row list" where
  "fetchall cur = map (dict_factory (description cur)) (fetched cur)"

definition fetchone :: "cursor \<Rightarrow> row option" where
  "fetchone cur = (case fetched cur of [] \<Rightarrow> None | t # _ \<Rightarrow> Some (dict_factory (description cur) t))"

text \<open>
  \<^verbatim>\<open>fetchall\<close> after a SELECT on the view: the row factory turns each tuple into a
  dict, as for a table; the rows come as a multiset.
\<close>

definition fetchall_view :: "string list \<Rightarrow> row multiset \<Rightarrow> row multiset" where
  "fetchall_view names rs = image_mset (\<lambda>r. dict_factory names (map (lookup r) names)) rs"

subsection \<open>Reads\<close>

definition get_movies_with_state :: "connection \<Rightarrow> val \<Rightarrow> (error + row list) \<times> connection" where
  "get_movies_with_state c state =
     (if state \<notin> set (map VText get_states)
      then (Inl (Exception (''Non allowed state='' @ py_str state @ ''!'')), c)
      else let c' = execute c ''SELECT * FROM movies WHERE state=?''
           in case bind_error [state] of
                Some e \<Rightarrow> (Inl e, c')
              | None \<Rightarrow>
                 (Inr (fetchall (select_columns (column_names movies_def)
                         (filter (\<lambda>r. sql_eq (lookup r ''state'') (apply_affinity TEXT state))
                                 (trows (movies c'))))), c'))"

definition get_tv_shows_with_state :: "connection \<Rightarrow> val \<Rightarrow> (error + row list) \<times> connection" where
  "get_tv_shows_with_state c state =
     (if state \<notin> set (map VText get_states)
      then (Inl (Exception (''Non allowed state='' @ py_str state @ ''!'')), c)
      else let c' = execute c ''SELECT * FROM tv_shows WHERE state=?''
           in case bind_error [state] of
                Some e \<Rightarrow> (Inl e, c')
              | None \<Rightarrow>
                 (Inr (fetchall (select_columns (column_names tv_shows_def)
                         (filter (\<lambda>r. sql_eq (lookup r ''state'') (apply_affinity TEXT state))
                                 (trows (tv_shows c'))))), c'))"

definition get_all_movies :: "connection \<Rightarrow> (error + row list) \<times> connection" where
  "get_all_movies c =
     (let c' = execute c ''SELECT * FROM movies''
      in (Inr (fetchall (select_columns (column_names movies_def) (trows (movies c')))), c'))"

definition get_all_tv_shows :: "connection \<Rightarrow> (error + row list) \<times> connection" where
  "get_all_tv_shows c =
     (let c' = execute c ''SELECT * FROM tv_shows;''
      in (Inr (fetchall (select_columns (column_names tv_shows_def) (trows (tv_shows c')))), c'))"

definition get_all_tv_shows_with_seasons :: "connection \<Rightarrow> (error + row multiset) \<times> connection" where
  "get_all_tv_shows_with_seasons c =
     (let c' = execute c ''SELECT * FROM tv_shows_with_seasons_view;''
      in (Inr (fetchall_view view_columns (tv_shows_with_seasons_view c')), c'))"

definition get_tv_show_with_seasons :: "connection \<Rightarrow> val \<Rightarrow> (error + row multiset) \<times> connection" where
  "get_tv_show_with_seasons c id' =
     (let c' = execute c ''SELECT * from tv_shows_with_seasons_view WHERE show_id=?''
      in case bind_error [id'] of
           Some e \<Rightarrow> (Inl e, c')
         | None \<Rightarrow>
            (Inr (fetchall_view view_columns
                    (filter_mset (\<lambda>r. sql_eq (lookup r ''show_id'') (apply_affinity INTEGER id'))
                                 (tv_shows_with_seasons_view c'))), c'))"

definition get_movie :: "connection \<Rightarrow> val \<Rightarrow> (error + row option) \<times> connection" where
  "get_movie c id' =
     (let c' = execute c ''SELECT * FROM movies WHERE id=?''
      in case bind_error [id'] of
           Some e \<Rightarrow> (Inl e, c')
         | None \<Rightarrow>
            (Inr (fetchone (select_columns (column_names movies_def)
                    (filter (id_matches id') (trows (movies c'))))), c'))"

definition get_tv_show :: "connection \<Rightarrow> val \<Rightarrow> (error + row option) \<times> connection" where
  "get_tv_show c id' =
     (let c' = execute c ''SELECT * FROM tv_shows WHERE id=?''
      in case bind_error [id'] of
           Some e \<Rightarrow> (Inl e, c')
         | None \<Rightarrow>
            (Inr (fetchone (select_columns (column_names tv_shows_def)
                    (filter (id_matches id') (trows (tv_shows c'))))), c'))"

text \<open>
  \<^verbatim>\<open>get_season_states\<close> reads the \<^verbatim>\<open>season_state\<close> column of the view for one show
  id and adds the value of every result row to a Python set: the set of these values.
\<close>

definition get_season_states :: "connection \<Rightarrow> val \<Rightarrow> (error + val set) \<times> connection" where
  "get_season_states c show_id =
     (let c' = execute c ''SELECT season_state FROM tv_shows_with_seasons_view WHERE show_id=?''
      in case bind_error [show_id] of
           Some e \<Rightarrow> (Inl e, c')
         | None \<Rightarrow>
            (let result = fetchall_view [''season_state'']
                            (filter_mset (\<lambda>r. sql_eq (lookup r ''show_id'') (apply_affinity INTEGER show_id))
                                         (tv_shows_with_seasons_view c'))
             in (Inr ((\<lambda>row. lookup row ''season_state'') ` set_mset result), c')))"

subsection \<open>Deletes\<close>

definition delete_movie :: "connection \<Rightarrow> val \<Rightarrow> (error + unit) \<times> connection" where
  "delete_movie c id' =
     (let c' = execute c ''DELETE FROM movies WHERE id=?''
      in case bind_error [id'] of
           Some e \<Rightarrow> (Inl e, c')
         | None \<Rightarrow> (Inr (), c'\<lparr>movies := sql_delete (movies c') id'\<rparr>))"

definition delete_tv_show :: "connection \<Rightarrow> val \<Rightarrow> (error + unit) \<times> connection" where
  "delete_tv_show c id' =
     (let c' = execute c ''DELETE FROM tv_shows WHERE id=?''
      in case bind_error [id'] of
           Some e \<Rightarrow> (Inl e, c')
         | None \<Rightarrow> (Inr (), c'\<lparr>tv_shows := sql_delete (tv_shows c') id'\<rparr>))"

definition delete_season :: "connection \<Rightarrow> val \<Rightarrow> (error + unit) \<times> connection" where
  "delete_season c id' =
     (let c' = execute c ''DELETE FROM tv_show_seasons WHERE id=?''
      in case bind_error [id'] of
           Some e \<Rightarrow> (Inl e, c')
         | None \<Rightarrow> (Inr (), c'\<lparr>tv_show_seasons := sql_delete (tv_show_seasons c') id'\<rparr>))"

subsection \<open>Creates\<close>

text \<open>
  The INSERT statements are multi-line literals in the source; the list of executed
  statements records them with their white space collapsed.
\<close>

definition add_movie :: "connection \<Rightarrow> val \<Rightarrow> val \<Rightarrow> val \<Rightarrow> (error + unit) \<times> connection" where
  "add_movie c name max_size_mb resolution_profile =
     (let c' = execute c ''INSERT INTO movies(name,max_size_mb,resolution_profile) VALUES(?,?,?)''
      in case bind_error [name, max_size_mb, resolution_profile] of
           Some e \<Rightarrow> (Inl e, c')
         | None \<Rightarrow>
            (case sql_insert movies_def (movies c')
                    [(''name'', name), (''max_size_mb'', max_size_mb),
                     (''resolution_profile'', resolution_profile)] of
               Inl e \<Rightarrow> (Inl e, c')
             | Inr t \<Rightarrow> (Inr (), c'\<lparr>movies := t\<rparr>)))"

definition add_tv_show :: "connection \<Rightarrow> val \<Rightarrow> val \<Rightarrow> val \<Rightarrow> (error + unit) \<times> connection" where
  "add_tv_show c name max_episode_size_mb resolution_profile =
     (let c' = execute c ''INSERT INTO tv_shows(name,max_episode_size_mb,resolution_profile) VALUES(?,?,?)''
      in case bind_error [name, max_episode_size_mb, resolution_profile] of
           Some e \<Rightarrow> (Inl e, c')
         | None \<Rightarrow>
            (case sql_insert tv_shows_def (tv_shows c')
                    [(''name'', name), (''max_episode_size_mb'', max_episode_size_mb),
                     (''resolution_profile'', resolution_profile)] of
               Inl e \<Rightarrow> (Inl e, c')
             | Inr t \<Rightarrow> (Inr (), c'\<lparr>tv_shows := t\<rparr>)))"

definition add_tv_show_season :: "connection \<Rightarrow> val \<Rightarrow> val \<Rightarrow> val \<Rightarrow> (error + unit) \<times> connection" where
  "add_tv_show_season c show_id season_number season_number_episodes =
     (let c' = execute c ''INSERT INTO tv_show_seasons(show_id,season_number, season_number_episodes) VALUES(?,?,?)''
      in case bind_error [show_id, season_number, season_number_episodes] of
           Some e \<Rightarrow> (Inl e, c')
         | None \<Rightarrow>
            (case sql_insert tv_show_seasons_def (tv_show_seasons c')
                    [(''show_id'', show_id), (''season_number'', season_number),
                     (''season_number_episodes'', season_number_episodes)] of
               Inl e \<Rightarrow> (Inl e, c')
             | Inr t \<Rightarrow> (Inr (), c'\<lparr>tv_show_seasons := t\<rparr>)))"

subsection \<open>Partial updates\<close>

text \<open>
  The three update operations are declared \<^verbatim>\<open>def update_movie(self, id, **kwargs)\<close>.
  The model takes the id and the mapping of the keywords given besides it. Python binds
  the arguments before the body runs: a keyword named like one of the parameters
  \<^verbatim>\<open>self\<close> and \<^verbatim>\<open>id\<close>, which are bound already, raises \<^verbatim>\<open>TypeError\<close> there,
  at the first such keyword (the message is the one of CPython 3.10 and later, with the
  qualified name of the method).
\<close>

definition bound_parameters :: "string list" where
  "bound_parameters = [''self'', ''id'']"

definition bind_keywords :: "string \<Rightarrow> (string \<times> val) list \<Rightarrow> error option" where
  "bind_keywords fname kwargs =
     (case find (\<lambda>key. key \<in> set bound_parameters) (map fst kwargs) of
        Some key \<Rightarrow> Some (TypeError (fname @ ''() got multiple values for argument ''
                                        @ py_repr_str key))
      | None \<Rightarrow> None)"

text \<open>
  \<^verbatim>\<open>**kwargs\<close> is a Python dict: its items in insertion order, no key twice. The loop
  of the three update operations is the same up to the allow-list: it raises at the first
  key outside the list, and otherwise extends the SET clause and the tuple of values.
\<close>

fun update_loop :: "string list \<Rightarrow> (string \<times> val) list \<Rightarrow> string \<times> val list
                    \<Rightarrow> error + (string \<times> val list)" where
  "update_loop table_columns [] (columns_to_update, values) = Inr (columns_to_update, values)"
| "update_loop table_columns ((key, value) # kwargs) (columns_to_update, values) =
     (if key \<notin> set table_columns
      then Inl (Exception (''The key argument must be one of the following: ''
                            @ py_repr_list table_columns))
      else update_loop table_columns kwargs (columns_to_update @ key @ ''=?, '', values @ [value]))"

text \<open>
  The statement that is executed has one \<^verbatim>\<open>?\<close> per key, in the order of the keys,
  and a last one for the id: the i-th value of the tuple is assigned to the i-th key.
\<close>

definition movie_table_columns :: "string list" where
  "movie_table_columns = [''name'', ''max_size_mb'', ''resolution_profile'', ''state'', ''hash'']"

definition update_movie :: "connection \<Rightarrow> val \<Rightarrow> (string \<times> val) list \<Rightarrow> (error + unit) \<times> connection" where
  "update_movie c id' kwargs =
     (case bind_keywords ''TBDatabase.update_movie'' kwargs of
        Some e \<Rightarrow> (Inl e, c)
      | None \<Rightarrow>
     (if kwargs = [] then (Inl (Exception ''At least one argument must be specified''), c)
      else case update_loop movie_table_columns kwargs ([], []) of
                Inl e \<Rightarrow> (Inl e, c)
              | Inr (columns_to_update, values) \<Rightarrow>
                 (let values' = values @ [id'];
                      columns_to_update' = take (length columns_to_update - 2) columns_to_update;
                      c' = execute c (''UPDATE movies SET '' @ columns_to_update' @ '' WHERE id=?'')
                  in case bind_error values' of
                       Some e \<Rightarrow> (Inl e, c')
                     | None \<Rightarrow>
                        (case sql_update movies_def (movies c')
                                (zip (map fst kwargs) (butlast values')) (last values') of
                           Inl e \<Rightarrow> (Inl e, c')
                         | Inr t \<Rightarrow> (Inr (), c'\<lparr>movies := t\<rparr>)))))"

definition tv_shows_table_columns :: "string list" where
  "tv_shows_table_columns = [''name'', ''max_episode_size_mb'', ''resolution_profile'', ''state'']"

definition update_tv_show :: "connection \<Rightarrow> val \<Rightarrow> (string \<times> val) list \<Rightarrow> (error + unit) \<times> connection" where
  "update_tv_show c id' kwargs =
     (case bind_keywords ''TBDatabase.update_tv_show'' kwargs of
        Some e \<Rightarrow> (Inl e, c)
      | None \<Rightarrow>
     (if kwargs = [] then (Inl (Exception ''At least one argument must be specified''), c)
      else case update_loop tv_shows_table_columns kwargs ([], []) of
                Inl e \<Rightarrow> (Inl e, c)
              | Inr (columns_to_update, values) \<Rightarrow>
                 (let values' = values @ [id'];
                      columns_to_update' = take (length columns_to_update - 2) columns_to_update;
                      c' = execute c (''UPDATE tv_shows SET '' @ columns_to_update' @ '' WHERE id=?'')
                  in case bind_error values' of
                       Some e \<Rightarrow> (Inl e, c')
                     | None \<Rightarrow>
                        (case sql_update tv_shows_def (tv_shows c')
                                (zip (map fst kwargs) (butlast values')) (last values') of
                           Inl e \<Rightarrow> (Inl e, c')
                         | Inr t \<Rightarrow> (Inr (), c'\<lparr>tv_shows := t\<rparr>)))))"

definition tv_show_season_table_columns :: "string list" where
  "tv_show_season_table_columns = [''season_number'', ''season_number_episodes'', ''state'', ''hash'']"

definition update_show_season :: "connection \<Rightarrow> val \<Rightarrow> (string \<times> val) list \<Rightarrow> (error + unit) \<times> connection" where
  "update_show_season c id' kwargs =
     (case bind_keywords ''TBDatabase.update_show_season'' kwargs of
        Some e \<Rightarrow> (Inl e, c)
      | None \<Rightarrow>
     (if kwargs = [] then (Inl (Exception ''At least one argument must be specified''), c)
      else case update_loop tv_show_season_table_columns kwargs ([], []) of
                Inl e \<Rightarrow> (Inl e, c)
              | Inr (columns_to_update, values) \<Rightarrow>
                 (let values' = values @ [id'];
                      columns_to_update' = take (length columns_to_update - 2) columns_to_update;
                      c' = execute c (''UPDATE tv_show_seasons SET '' @ columns_to_update' @ '' WHERE id=?'')
                  in case bind_error values' of
                       Some e \<Rightarrow> (Inl e, c')
                     | None \<Rightarrow>
                        (case sql_update tv_show_seasons_def (tv_show_seasons c')
                                (zip (map fst kwargs) (butlast values')) (last values') of
                           Inl e \<Rightarrow> (Inl e, c')
                         | Inr t \<Rightarrow> (Inr (), c'\<lparr>tv_show_seasons := t\<rparr>)))))"

section \<open>Notions used by the statements\<close>

text \<open>
  The SET clause that the loop and the slice \<^verbatim>\<open>[:-2]\<close> leave: \<^verbatim>\<open>k1=?, ..., kn=?\<close>.
\<close>

definition set_clause :: "(string \<times> val) list \<Rightarrow> string" where
  "set_clause kwargs =
     (let s = concat (map (\<lambda>(k, v). k @ ''=?, '') kwargs) in take (length s - 2) s)"

text \<open>
  Every stored row of a well-formed store has exactly the columns of its table, in the
  order of the schema. The empty store is well formed and every operation keeps a store
  so (\<open>well_formed_empty_store\<close> and the \<open>well_formed_\<close> lemmas below).
\<close>

definition has_columns :: "table_def \<Rightarrow> table \<Rightarrow> bool" where
  "has_columns d t = list_all (\<lambda>r. map fst r = column_names d) (trows t)"

definition well_formed :: "connection \<Rightarrow> bool" where
  "well_formed c =
     (has_columns movies_def (movies c) \<and> has_columns tv_shows_def (tv_shows c)
      \<and> has_columns tv_show_seasons_def (tv_show_seasons c))"

text \<open>
  A value fits an affinity when it is NULL or already of that storage class: the
  conversion to the affinity leaves it as it is.
\<close>

fun fits :: "affinity \<Rightarrow> val \<Rightarrow> bool" where
  "fits a VNull = True"
| "fits INTEGER (VInt i) = True"
| "fits TEXT (VText s) = True"
| "fits a v = False"

definition fits_columns :: "table_def \<Rightarrow> (string \<times> val) list \<Rightarrow> bool" where
  "fits_columns d kwargs = list_all (\<lambda>(k, v). fits (col_affinity d k) v) kwargs"

text \<open>
  \<open>patched kwargs r r'\<close>: the row \<open>r'\<close> has the columns of \<open>r\<close>, with the value of
  \<open>kwargs\<close> in every column that \<open>kwargs\<close> names and the value of \<open>r\<close> in every other
  column. \<open>patched_table kwargs n t t'\<close>: the table \<open>t'\<close> is \<open>t\<close> with the rows whose id
  is \<open>n\<close> patched and every other row, and the id counter, as they were.
\<close>

definition patched :: "(string \<times> val) list \<Rightarrow> row \<Rightarrow> row \<Rightarrow> bool" where
  "patched kwargs r r' =
     (map fst r' = map fst r
      \<and> (\<forall>k\<in>set (map fst r). lookup r' k = (case map_of kwargs k of Some v \<Rightarrow> v | None \<Rightarrow> lookup r k)))"

definition patched_table :: "(string \<times> val) list \<Rightarrow> int \<Rightarrow> table \<Rightarrow> table \<Rightarrow> bool" where
  "patched_table kwargs n t t' =
     (tseq t' = tseq t
      \<and> list_all2 (\<lambda>r r'. if lookup r ''id'' = VInt n then patched kwargs r r' else r' = r)
            (trows t) (trows t'))"

text \<open>The error of a result is a constraint violation, \<^verbatim>\<open>sqlite3.IntegrityError\<close>.\<close>

fun constraint_violation :: "error + 'a \<Rightarrow> bool" where
  "constraint_violation (Inl (IntegrityError msg)) = True"
| "constraint_violation res = False"

subsection \<open>Stores to evaluate on\<close>

text \<open>The store after \<^verbatim>\<open>create_schema\<close> on a fresh file.\<close>

definition empty_store :: connection where
  "empty_store = \<lparr>movies = \<lparr>trows = [], tseq = 0\<rparr>, tv_shows = \<lparr>trows = [], tseq = 0\<rparr>,
                   tv_show_seasons = \<lparr>trows = [], tseq = 0\<rparr>, executed = []\<rparr>"

text \<open>
  A store with one movie, two shows and five seasons: three seasons of show 1 (two
  SEEDING, one COMPLETED), none of show 2, one season whose show 7 does not exist and
  one season without a show. \<open>example_store_reachable\<close> below builds its tables from the
  empty store with the operations of the access layer.
\<close>

definition example_store :: connection where
  "example_store =
     \<lparr>movies = \<lparr>trows =
         [[(''id'', VInt 1), (''name'', VText ''Alien''), (''max_size_mb'', VInt 700),
           (''resolution_profile'', VText ''1080p''), (''state'', VText ''SEARCHING''),
           (''hash'', VNull)]], tseq = 1\<rparr>,
      tv_shows = \<lparr>trows =
         [[(''id'', VInt 1), (''name'', VText ''Foo''), (''max_episode_size_mb'', VInt 300),
           (''resolution_profile'', VText ''720p''), (''state'', VText ''SEARCHING'')],
          [(''id'', VInt 2), (''name'', VText ''Bar''), (''max_episode_size_mb'', VInt 300),
           (''resolution_profile'', VText ''720p''), (''state'', VText ''SEARCHING'')]], tseq = 2\<rparr>,
      tv_show_seasons = \<lparr>trows =
         [[(''id'', VInt 1), (''show_id'', VInt 1), (''season_number'', VInt 1),
           (''season_number_episodes'', VInt 10), (''state'', VText ''SEEDING''), (''hash'', VNull)],
          [(''id'', VInt 2), (''show_id'', VInt 1), (''season_number'', VInt 2),
           (''season_number_episodes'', VInt 8), (''state'', VText ''SEEDING''), (''hash'', VNull)],
          [(''id'', VInt 3), (''show_id'', VInt 1), (''season_number'', VInt 3),
           (''season_number_episodes'', VInt 8), (''state'', VText ''COMPLETED''), (''hash'', VNull)],
          [(''id'', VInt 4), (''show_id'', VInt 7), (''season_number'', VInt 1),
           (''season_number_episodes'', VInt 5), (''state'', VText ''SEARCHING''), (''hash'', VNull)],
          [(''id'', VInt 5), (''show_id'', VNull), (''season_number'', VInt 1),
           (''season_number_episodes'', VInt 5), (''state'', VText ''SEARCHING''), (''hash'', VNull)]],
         tseq = 5\<rparr>,
      executed = []\<rparr>"

text \<open>
  The (show, season) pairs of the claims about the view, in the words of the spec: every
  pair of a row of \<^verbatim>\<open>tv_shows\<close> and a row of \<^verbatim>\<open>tv_show_seasons\<close> where the season's
  \<^verbatim>\<open>show_id\<close> equals the show's \<^verbatim>\<open>id\<close>.
\<close>

definition show_season_pairs :: "connection \<Rightarrow> (row \<times> row) list" where
  "show_season_pairs c =
     filter (\<lambda>(sh, se). sql_eq (lookup sh ''id'') (lookup se ''show_id''))
            (List.product (trows (tv_shows c)) (trows (tv_show_seasons c)))"

text \<open>
  A value that the model converts to an affinity as SQLite does: every value of the
  model for TEXT; for INTEGER, NULL, an integer, a text that is an integer literal of 64
  bits, and a text without any digit, which is no number. (A text with a decimal point
  or an exponent is not such a value.)
\<close>

fun modelled :: "affinity \<Rightarrow> val \<Rightarrow> bool" where
  "modelled INTEGER (VText s) =
     (case int_literal s of Some i \<Rightarrow> in_int64 i | None \<Rightarrow> \<not> list_ex is_digit s)"
| "modelled a v = True"





section \<open>Facts about the engine\<close>

lemma execute_simps [simp]:
  "movies (execute c s) = movies c"
  "tv_shows (execute c s) = tv_shows c"
  "tv_show_seasons (execute c s) = tv_show_seasons c"
  "executed (execute c s) = executed c @ [s]"
  by (simp_all add: execute_def)

lemma map_of_map_values:
  "map_of (map (\<lambda>(k, v). (k, f k v)) r) k = map_option (f k) (map_of r k)"
  by (induction r) auto

lemma map_fst_set_columns [simp]: "map fst (set_columns d sets r) = map fst r"
  by (simp add: set_columns_def case_prod_unfold comp_def)

lemma lookup_set_columns:
  "k \<in> set (map fst r) \<Longrightarrow>
   lookup (set_columns d sets r) k =
     (case map_of sets k of Some v \<Rightarrow> apply_affinity (col_affinity d k) v | None \<Rightarrow> lookup r k)"
proof -
  assume "k \<in> set (map fst r)"
  then obtain v where v: "map_of r k = Some v"
    by (metis map_of_eq_None_iff not_Some_eq set_map)
  show ?thesis
    unfolding lookup_def set_columns_def map_of_map_values v
    by (simp split: option.splits)
qed

lemma lookup_set_columns_other:
  "map_of sets k = None \<Longrightarrow> lookup (set_columns d sets r) k = lookup r k"
  unfolding lookup_def set_columns_def map_of_map_values
  by (cases "map_of r k") simp_all

lemma sql_update_Inr:
  "sql_update d t sets idp = Inr t' \<Longrightarrow>
   t' = t\<lparr>trows := map (\<lambda>r. if id_matches idp r then set_columns d sets r else r) (trows t)\<rparr>"
  by (auto simp: sql_update_def Let_def split: option.splits)

lemma first_error_None: "first_error es = None \<longleftrightarrow> (\<forall>e\<in>set es. e = None)"
  by (induction es rule: first_error.induct) auto

subsection \<open>The loop of the update operations\<close>

lemma update_loop_bad:
  "\<exists>k\<in>set (map fst kwargs). k \<notin> set cols \<Longrightarrow>
   update_loop cols kwargs acc =
     Inl (Exception (''The key argument must be one of the following: '' @ py_repr_list cols))"
  by (induction cols kwargs acc rule: update_loop.induct) auto

lemma update_loop_ok:
  "\<forall>k\<in>set (map fst kwargs). k \<in> set cols \<Longrightarrow>
   update_loop cols kwargs (s, vs) =
     Inr (s @ concat (map (\<lambda>(k, v). k @ ''=?, '') kwargs), vs @ map snd kwargs)"
  by (induction kwargs arbitrary: s vs) auto

lemma zip_fst_snd: "zip (map fst xs) (map snd xs) = xs"
  by (induction xs) auto

text \<open>No key of an allow-list is the name of a bound parameter.\<close>

lemma bind_keywords_None:
  "\<forall>k\<in>set (map fst kwargs). k \<notin> set bound_parameters \<Longrightarrow> bind_keywords fname kwargs = None"
  by (auto simp: bind_keywords_def find_None_iff split: option.splits)

lemma bind_keywords_Some:
  "find (\<lambda>key. key \<in> set bound_parameters) (map fst kwargs) = Some key \<Longrightarrow>
   bind_keywords fname kwargs =
     Some (TypeError (fname @ ''() got multiple values for argument '' @ py_repr_str key))"
  by (simp add: bind_keywords_def)

lemma allowed_keys_bind:
  "\<forall>k\<in>set (map fst kwargs). k \<in> set movie_table_columns \<Longrightarrow> bind_keywords fname kwargs = None"
  "\<forall>k\<in>set (map fst kwargs). k \<in> set tv_shows_table_columns \<Longrightarrow> bind_keywords fname kwargs = None"
  "\<forall>k\<in>set (map fst kwargs). k \<in> set tv_show_season_table_columns \<Longrightarrow> bind_keywords fname kwargs = None"
  by (rule bind_keywords_None;
      force simp: bound_parameters_def movie_table_columns_def tv_shows_table_columns_def
        tv_show_season_table_columns_def)+

lemma update_movie_valid:
  assumes "kwargs \<noteq> []" "\<forall>k\<in>set (map fst kwargs). k \<in> set movie_table_columns"
  shows "update_movie c i kwargs =
     (let c' = execute c (''UPDATE movies SET '' @ set_clause kwargs @ '' WHERE id=?'')
      in case bind_error (map snd kwargs @ [i]) of
           Some e \<Rightarrow> (Inl e, c')
         | None \<Rightarrow> (case sql_update movies_def (movies c) kwargs i of
               Inl e \<Rightarrow> (Inl e, c')
             | Inr t \<Rightarrow> (Inr (), c'\<lparr>movies := t\<rparr>)))"
  unfolding update_movie_def update_loop_ok [OF assms(2)] set_clause_def allowed_keys_bind(1) [OF assms(2)]
  using assms(1) by (simp add: Let_def zip_fst_snd split: option.splits sum.splits)

lemma update_tv_show_valid:
  assumes "kwargs \<noteq> []" "\<forall>k\<in>set (map fst kwargs). k \<in> set tv_shows_table_columns"
  shows "update_tv_show c i kwargs =
     (let c' = execute c (''UPDATE tv_shows SET '' @ set_clause kwargs @ '' WHERE id=?'')
      in case bind_error (map snd kwargs @ [i]) of
           Some e \<Rightarrow> (Inl e, c')
         | None \<Rightarrow> (case sql_update tv_shows_def (tv_shows c) kwargs i of
               Inl e \<Rightarrow> (Inl e, c')
             | Inr t \<Rightarrow> (Inr (), c'\<lparr>tv_shows := t\<rparr>)))"
  unfolding update_tv_show_def update_loop_ok [OF assms(2)] set_clause_def allowed_keys_bind(2) [OF assms(2)]
  using assms(1) by (simp add: Let_def zip_fst_snd split: option.splits sum.splits)

lemma update_show_season_valid:
  assumes "kwargs \<noteq> []" "\<forall>k\<in>set (map fst kwargs). k \<in> set tv_show_season_table_columns"
  shows "update_show_season c i kwargs =
     (let c' = execute c (''UPDATE tv_show_seasons SET '' @ set_clause kwargs @ '' WHERE id=?'')
      in case bind_error (map snd kwargs @ [i]) of
           Some e \<Rightarrow> (Inl e, c')
         | None \<Rightarrow> (case sql_update tv_show_seasons_def (tv_show_seasons c) kwargs i of
               Inl e \<Rightarrow> (Inl e, c')
             | Inr t \<Rightarrow> (Inr (), c'\<lparr>tv_show_seasons := t\<rparr>)))"
  unfolding update_show_season_def update_loop_ok [OF assms(2)] set_clause_def allowed_keys_bind(3) [OF assms(2)]
  using assms(1) by (simp add: Let_def zip_fst_snd split: option.splits sum.splits)





subsection \<open>Affinity and patches\<close>

lemma fits_apply_affinity: "fits a v \<Longrightarrow> apply_affinity a v = v"
  by (cases a; cases v) simp_all

lemma patched_set_columns:
  assumes "fits_columns d kwargs"
  shows "patched kwargs r (set_columns d kwargs r)"
proof -
  have "lookup (set_columns d kwargs r) k = (case map_of kwargs k of Some v \<Rightarrow> v | None \<Rightarrow> lookup r k)"
    if "k \<in> set (map fst r)" for k
  proof (cases "map_of kwargs k")
    case None
    then show ?thesis by (simp add: lookup_set_columns_other)
  next
    case (Some v)
    then have "(k, v) \<in> set kwargs" by (rule map_of_SomeD)
    with assms have "fits (col_affinity d k) v"
      by (auto simp: fits_columns_def list_all_iff)
    with Some that show ?thesis
      by (simp add: lookup_set_columns fits_apply_affinity)
  qed
  then show ?thesis by (simp add: patched_def)
qed

lemma list_all2_map_right: "(\<And>x. x \<in> set xs \<Longrightarrow> P x (f x)) \<Longrightarrow> list_all2 P xs (map f xs)"
  by (induction xs) auto

lemma id_matches_VInt [simp]: "id_matches (VInt n) r \<longleftrightarrow> lookup r ''id'' = VInt n"
  by (auto simp: id_matches_def sql_eq_def)

lemma sql_update_patched:
  assumes "sql_update d t kwargs (VInt n) = Inr t'" "fits_columns d kwargs"
  shows "patched_table kwargs n t t'"
  unfolding sql_update_Inr [OF assms(1)] patched_table_def
  by (auto intro!: list_all2_map_right simp: patched_set_columns [OF assms(2)])

text \<open>
  Setting the state column alone to a text cannot violate a constraint: the column is
  NOT NULL and the text is not NULL, and no UNIQUE key of the schema contains it.
\<close>

lemma sql_update_state_only:
  assumes cols: "has_columns d t"
    and st: "''state'' \<in> set (column_names d)" "col_affinity d ''state'' = TEXT"
    and uq: "\<forall>key\<in>set (tunique d). ''state'' \<notin> set key"
  shows "sql_update d t [(''state'', VText s)] i =
           Inr (t\<lparr>trows := map (\<lambda>r. if id_matches i r then set_columns d [(''state'', VText s)] r else r)
                                 (trows t)\<rparr>)"
proof -
  have "constraint_error d [''state''] rest (set_columns d [(''state'', VText s)] r) = None"
    if "r \<in> set (trows t)" for r rest
  proof -
    from that cols st(1) have "''state'' \<in> set (map fst r)"
      by (auto simp: has_columns_def list_all_iff)
    then have "lookup (set_columns d [(''state'', VText s)] r) ''state'' = VText s"
      by (simp add: lookup_set_columns st(2))
    then have "notnull_violation d [''state''] (set_columns d [(''state'', VText s)] r) = None"
      by (auto simp: notnull_violation_def find_None_iff)
    moreover from uq have "unique_violation d [''state''] rest (set_columns d [(''state'', VText s)] r) = None"
      by (auto simp: unique_violation_def find_None_iff list_ex_iff)
    ultimately show ?thesis by (simp add: constraint_error_def)
  qed
  then have "first_error (map (\<lambda>r. constraint_error d [''state''] rest
                (set_columns d [(''state'', VText s)] r)) (filter (id_matches i) (trows t))) = None" for rest
    by (auto simp: first_error_None)
  then show ?thesis by (simp add: sql_update_def Let_def)
qed

lemma state_column_facts:
  "''state'' \<in> set (column_names movies_def)" "col_affinity movies_def ''state'' = TEXT"
  "\<forall>key\<in>set (tunique movies_def). ''state'' \<notin> set key"
  "''state'' \<in> set (column_names tv_shows_def)" "col_affinity tv_shows_def ''state'' = TEXT"
  "\<forall>key\<in>set (tunique tv_shows_def). ''state'' \<notin> set key"
  "''state'' \<in> set (column_names tv_show_seasons_def)" "col_affinity tv_show_seasons_def ''state'' = TEXT"
  "\<forall>key\<in>set (tunique tv_show_seasons_def). ''state'' \<notin> set key"
  by (simp_all add: column_names_def col_affinity_def movies_def_def tv_shows_def_def
        tv_show_seasons_def_def)

lemma fits_state_text:
  "fits_columns movies_def [(''state'', VText s)]"
  "fits_columns tv_shows_def [(''state'', VText s)]"
  "fits_columns tv_show_seasons_def [(''state'', VText s)]"
  by (simp_all add: fits_columns_def state_column_facts)
subsection \<open>Reading rows back\<close>

lemma alist_update_fresh: "k \<notin> fst ` set al \<Longrightarrow> AList.update k v al = al @ [(k, v)]"
  by (induction al) auto

lemma dict_factory_fold:
  "distinct names \<Longrightarrow> set names \<inter> fst ` set acc = {} \<Longrightarrow> n + length names \<le> length tuple \<Longrightarrow>
   fold (\<lambda>(idx, col) output. AList.update col (tuple ! idx) output) (enumerate n names) acc =
     acc @ zip names (take (length names) (drop n tuple))"
proof (induction names arbitrary: n acc)
  case Nil
  then show ?case by simp
next
  case (Cons x xs)
  from Cons.prems have fresh: "x \<notin> fst ` set acc" and n: "n < length tuple"
    by auto
  have step: "AList.update x (tuple ! n) acc = acc @ [(x, tuple ! n)]"
    using fresh by (rule alist_update_fresh)
  have "fold (\<lambda>(idx, col) output. AList.update col (tuple ! idx) output) (enumerate (Suc n) xs)
          (acc @ [(x, tuple ! n)]) =
        (acc @ [(x, tuple ! n)]) @ zip xs (take (length xs) (drop (Suc n) tuple))"
    using Cons.prems by (intro Cons.IH) auto
  moreover have "drop n tuple = tuple ! n # drop (Suc n) tuple"
    using n by (simp add: Cons_nth_drop_Suc)
  ultimately show ?case by (simp add: step)
qed

lemma dict_factory_zip:
  "distinct names \<Longrightarrow> length tuple = length names \<Longrightarrow> dict_factory names tuple = zip names tuple"
  using dict_factory_fold [of names "[]" 0 tuple] by (simp add: dict_factory_def)

lemma row_of_lookups:
  "distinct (map fst r) \<Longrightarrow> zip (map fst r) (map (lookup r) (map fst r)) = r"
proof (induction r)
  case Nil
  then show ?case by simp
next
  case (Cons p r)
  obtain k v where p: "p = (k, v)" by (cases p)
  from Cons.prems p have "k \<notin> fst ` set r" by auto
  then have a: "map (lookup ((k, v) # r) \<circ> fst) r = map (lookup r \<circ> fst) r"
    by (intro map_cong) (auto simp: lookup_def)
  have b: "lookup ((k, v) # r) k = v"
    by (simp add: lookup_def)
  from Cons have c: "zip (map fst r) (map (lookup r \<circ> fst) r) = r"
    by simp
  have "zip (map fst ((k, v) # r)) (map (lookup ((k, v) # r)) (map fst ((k, v) # r))) =
          (k, lookup ((k, v) # r) k) # zip (map fst r) (map (lookup ((k, v) # r) \<circ> fst) r)"
    by simp
  also have "\<dots> = (k, v) # zip (map fst r) (map (lookup r \<circ> fst) r)"
    by (simp only: a b)
  also have "\<dots> = (k, v) # r"
    by (simp only: c)
  finally show ?case
    unfolding p .
qed

lemma dict_factory_row:
  "map fst r = names \<Longrightarrow> distinct names \<Longrightarrow> dict_factory names (map (lookup r) names) = r"
  using row_of_lookups [of r] by (simp add: dict_factory_zip)

lemma fetchall_select_columns:
  "distinct names \<Longrightarrow> list_all (\<lambda>r. map fst r = names) rs \<Longrightarrow>
   fetchall (select_columns names rs) = rs"
  by (simp add: fetchall_def select_columns_def list_all_iff dict_factory_row map_idI)

lemma fetchone_select_columns:
  "distinct names \<Longrightarrow> list_all (\<lambda>r. map fst r = names) rs \<Longrightarrow>
   fetchone (select_columns names rs) = (case rs of [] \<Rightarrow> None | r # _ \<Rightarrow> Some r)"
  by (cases rs) (simp_all add: fetchone_def select_columns_def dict_factory_row)

lemma distinct_column_names [simp]:
  "distinct (column_names movies_def)" "distinct (column_names tv_shows_def)"
  "distinct (column_names tv_show_seasons_def)" "distinct view_columns"
  by (simp_all add: column_names_def movies_def_def tv_shows_def_def tv_show_seasons_def_def
        view_columns_def)

lemma has_columns_filter:
  "has_columns d t \<Longrightarrow> list_all (\<lambda>r. map fst r = column_names d) (filter P (trows t))"
  by (simp add: has_columns_def list_all_iff)

lemma view_row_columns [simp]: "map fst (view_row sh se) = view_columns"
  by (simp add: view_row_def view_columns_def)

lemma view_rows_columns:
  "r \<in># tv_shows_with_seasons_view c \<Longrightarrow> map fst r = view_columns"
  by (auto simp: tv_shows_with_seasons_view_def)

lemma fetchall_view_rows:
  assumes "distinct names" "\<And>r. r \<in># rs \<Longrightarrow> map fst r = names"
  shows "fetchall_view names rs = rs"
proof -
  have "image_mset (\<lambda>r. dict_factory names (map (lookup r) names)) rs = image_mset (\<lambda>r. r) rs"
    using assms by (intro image_mset_cong) (simp add: dict_factory_row)
  then show ?thesis by (simp add: fetchall_view_def)
qed

lemma view_execute [simp]: "tv_shows_with_seasons_view (execute c s) = tv_shows_with_seasons_view c"
  by (simp add: tv_shows_with_seasons_view_def)

subsection \<open>Well-formed stores\<close>

lemma well_formed_empty_store: "well_formed empty_store"
  by (simp add: well_formed_def has_columns_def empty_store_def)

lemma map_fst_new_row [simp]: "map fst (new_row d rowid supplied) = column_names d"
  by (simp add: new_row_def column_names_def comp_def)

lemma has_columns_sql_insert:
  "has_columns d t \<Longrightarrow> sql_insert d t supplied = Inr t' \<Longrightarrow> has_columns d t'"
  by (auto simp: sql_insert_def Let_def has_columns_def split: option.splits)

lemma has_columns_sql_update:
  "has_columns d t \<Longrightarrow> sql_update d t sets i = Inr t' \<Longrightarrow> has_columns d t'"
  by (auto simp: has_columns_def list_all_iff dest!: sql_update_Inr)

lemma has_columns_sql_delete: "has_columns d t \<Longrightarrow> has_columns d (sql_delete t i)"
  by (simp add: has_columns_def sql_delete_def list_all_iff)

lemma well_formed_execute [simp]: "well_formed (execute c s) = well_formed c"
  by (simp add: well_formed_def)

lemma well_formed_add:
  "well_formed c \<Longrightarrow> well_formed (snd (add_movie c a1 a2 a3))"
  "well_formed c \<Longrightarrow> well_formed (snd (add_tv_show c a1 a2 a3))"
  "well_formed c \<Longrightarrow> well_formed (snd (add_tv_show_season c a1 a2 a3))"
  by (auto simp: add_movie_def add_tv_show_def add_tv_show_season_def Let_def well_formed_def
        split: option.splits sum.splits dest: has_columns_sql_insert)

lemma well_formed_delete:
  "well_formed c \<Longrightarrow> well_formed (snd (delete_movie c i))"
  "well_formed c \<Longrightarrow> well_formed (snd (delete_tv_show c i))"
  "well_formed c \<Longrightarrow> well_formed (snd (delete_season c i))"
  by (auto simp: delete_movie_def delete_tv_show_def delete_season_def Let_def well_formed_def
        has_columns_sql_delete split: option.splits)

lemma well_formed_update:
  "well_formed c \<Longrightarrow> well_formed (snd (update_movie c i kwargs))"
  "well_formed c \<Longrightarrow> well_formed (snd (update_tv_show c i kwargs))"
  "well_formed c \<Longrightarrow> well_formed (snd (update_show_season c i kwargs))"
  by (auto simp: update_movie_def update_tv_show_def update_show_season_def Let_def well_formed_def
        split: option.splits sum.splits prod.splits dest: has_columns_sql_update)

lemma well_formed_read:
  "well_formed c \<Longrightarrow> well_formed (snd (get_movies_with_state c v))"
  "well_formed c \<Longrightarrow> well_formed (snd (get_tv_shows_with_state c v))"
  "well_formed c \<Longrightarrow> well_formed (snd (get_all_movies c))"
  "well_formed c \<Longrightarrow> well_formed (snd (get_all_tv_shows c))"
  "well_formed c \<Longrightarrow> well_formed (snd (get_all_tv_shows_with_seasons c))"
  "well_formed c \<Longrightarrow> well_formed (snd (get_tv_show_with_seasons c v))"
  "well_formed c \<Longrightarrow> well_formed (snd (get_movie c v))"
  "well_formed c \<Longrightarrow> well_formed (snd (get_tv_show c v))"
  "well_formed c \<Longrightarrow> well_formed (snd (get_season_states c v))"
  by (auto simp: get_movies_with_state_def get_tv_shows_with_state_def get_all_movies_def
        get_all_tv_shows_def get_all_tv_shows_with_seasons_def get_tv_show_with_seasons_def
        get_movie_def get_tv_show_def get_season_states_def Let_def split: option.splits)
subsection \<open>The view\<close>

lemma product_filter_concat:
  "concat (map (\<lambda>x. map (f x) (filter (P x) ys)) xs) =
   map (\<lambda>(x, y). f x y) (filter (\<lambda>(x, y). P x y) (List.product xs ys))"
  by (induction xs) (simp_all add: filter_map comp_def)

lemma sum_mset_of_list: "(\<Sum>x\<in>#mset xs. mset (g x)) = mset (concat (map g xs))"
  by (induction xs) simp_all

text \<open>The view holds one row for each of the pairs of the spec, and nothing else.\<close>

lemma view_as_pairs:
  "tv_shows_with_seasons_view c = mset (map (\<lambda>(sh, se). view_row sh se) (show_season_pairs c))"
proof -
  have "tv_shows_with_seasons_view c =
        (\<Sum>sh\<in>#mset (trows (tv_shows c)).
           mset (map (view_row sh)
                  (filter (\<lambda>se. sql_eq (lookup sh ''id'') (lookup se ''show_id''))
                          (trows (tv_show_seasons c)))))"
    by (simp add: tv_shows_with_seasons_view_def)
  then show ?thesis
    unfolding sum_mset_of_list product_filter_concat show_season_pairs_def .
qed

lemma lookup_view_row [simp]:
  "lookup (view_row sh se) ''show_id'' = lookup sh ''id''"
  "lookup (view_row sh se) ''season_id'' = lookup se ''id''"
  "lookup (view_row sh se) ''season_number'' = lookup se ''season_number''"
  "lookup (view_row sh se) ''season_number_episodes'' = lookup se ''season_number_episodes''"
  "lookup (view_row sh se) ''season_state'' = lookup se ''state''"
  "lookup (view_row sh se) ''season_hash'' = lookup se ''hash''"
  "lookup (view_row sh se) ''show_name'' = lookup sh ''name''"
  "lookup (view_row sh se) ''show_state'' = lookup sh ''state''"
  by (simp_all add: view_row_def lookup_def)

lemma bind_error_None: "list_all bindable ps \<Longrightarrow> bind_error ps = None"
  by (simp add: bind_error_def)

lemma bind_error_VInt [simp]: "in_int64 n \<Longrightarrow> bind_error [VInt n] = None"
  by (simp add: bind_error_def)

lemma sql_eq_VInt [simp]: "sql_eq v (VInt n) \<longleftrightarrow> v = VInt n" "sql_eq (VInt n) v \<longleftrightarrow> v = VInt n"
  by (auto simp: sql_eq_def)

lemma get_all_tv_shows_with_seasons_rows:
  "fst (get_all_tv_shows_with_seasons c) = Inr (tv_shows_with_seasons_view c)"
  by (simp add: get_all_tv_shows_with_seasons_def Let_def fetchall_view_rows view_rows_columns)

lemma get_tv_show_with_seasons_param:
  "bindable i \<Longrightarrow>
   fst (get_tv_show_with_seasons c i) =
     Inr (filter_mset (\<lambda>r. sql_eq (lookup r ''show_id'') (apply_affinity INTEGER i))
            (tv_shows_with_seasons_view c))"
proof -
  assume i: "bindable i"
  have "fetchall_view view_columns
          (filter_mset (\<lambda>r. sql_eq (lookup r ''show_id'') (apply_affinity INTEGER i))
             (tv_shows_with_seasons_view c)) =
        filter_mset (\<lambda>r. sql_eq (lookup r ''show_id'') (apply_affinity INTEGER i))
             (tv_shows_with_seasons_view c)"
    by (rule fetchall_view_rows) (auto simp: view_rows_columns)
  with i show ?thesis
    by (simp add: get_tv_show_with_seasons_def Let_def bind_error_def)
qed

lemma get_tv_show_with_seasons_rows:
  "in_int64 n \<Longrightarrow>
   fst (get_tv_show_with_seasons c (VInt n)) =
     Inr (filter_mset (\<lambda>r. lookup r ''show_id'' = VInt n) (tv_shows_with_seasons_view c))"
  by (simp add: get_tv_show_with_seasons_param)

subsection \<open>The set of season states\<close>

lemma fetchall_single_column:
  "fetchall_view [k] rs = image_mset (\<lambda>r. [(k, lookup r k)]) rs"
  by (simp add: fetchall_view_def dict_factory_def)

lemma lookup_singleton [simp]: "lookup [(k, v)] k = v"
  by (simp add: lookup_def)

lemma get_season_states_view:
  assumes "in_int64 n"
  shows "fst (get_season_states c (VInt n)) =
           Inr ((\<lambda>r. lookup r ''season_state'') `
                {r \<in> set_mset (tv_shows_with_seasons_view c). lookup r ''show_id'' = VInt n})"
  using assms
  by (simp add: get_season_states_def Let_def fetchall_single_column image_image)

lemma season_states_of_show:
  "(\<lambda>r. lookup r ''season_state'') `
     {r \<in> set_mset (tv_shows_with_seasons_view c). lookup r ''show_id'' = VInt n} =
   (if list_ex (\<lambda>sh. lookup sh ''id'' = VInt n) (trows (tv_shows c))
    then set (map (\<lambda>se. lookup se ''state'')
               (filter (\<lambda>se. lookup se ''show_id'' = VInt n) (trows (tv_show_seasons c))))
    else {})"
  by (auto simp: view_as_pairs show_season_pairs_def list_ex_iff image_iff) force+

subsection \<open>What a successful update leaves\<close>



subsection \<open>INSERT\<close>

lemma fold_max_ge: "(a::int) \<le> fold max xs a"
  by (induction xs arbitrary: a) (auto intro: order_trans [OF max.cobounded2])

lemma fold_max_mem: "(x::int) \<in> set xs \<Longrightarrow> x \<le> fold max xs a"
proof (induction xs arbitrary: a)
  case Nil
  then show ?case by simp
next
  case (Cons y ys)
  show ?case
  proof (cases "x = y")
    case True
    have "y \<le> max y a" by simp
    also have "\<dots> \<le> fold max ys (max y a)" by (rule fold_max_ge)
    finally show ?thesis using True by simp
  next
    case False
    with Cons show ?thesis by simp
  qed
qed

text \<open>The id that AUTOINCREMENT hands out is the id of no row of the table.\<close>

lemma next_rowid_fresh: "r \<in> set (trows t) \<Longrightarrow> lookup r ''id'' \<noteq> VInt (next_rowid t)"
proof
  assume r: "r \<in> set (trows t)" and eq: "lookup r ''id'' = VInt (next_rowid t)"
  then have "next_rowid t \<in> set (row_ids (trows t))"
    by (force simp: row_ids_def)
  then have "next_rowid t \<le> fold max (row_ids (trows t)) (tseq t)"
    by (rule fold_max_mem)
  then show False by (simp add: next_rowid_def)
qed

lemma constraint_error_integrity:
  "constraint_error d w others r = Some e \<Longrightarrow> \<exists>msg. e = IntegrityError msg"
  by (auto simp: constraint_error_def split: option.splits)

lemma constraint_error_None:
  "constraint_error d w others r = None \<longleftrightarrow>
     notnull_violation d w r = None \<and> unique_violation d w others r = None"
  by (auto simp: constraint_error_def split: option.splits)

lemma sql_insert_cases:
  "sql_insert d t supplied =
     (case constraint_error d (column_names d) (trows t) (new_row d (next_rowid t) supplied) of
        Some e \<Rightarrow> Inl e
      | None \<Rightarrow> Inr \<lparr>trows = trows t @ [new_row d (next_rowid t) supplied], tseq = next_rowid t\<rparr>)"
  by (simp add: sql_insert_def Let_def)

text \<open>The rows that the three INSERT statements of the code build.\<close>

lemma new_row_movies:
  "new_row movies_def rid [(''name'', name), (''max_size_mb'', mb), (''resolution_profile'', prof)] =
     [(''id'', VInt rid), (''name'', apply_affinity TEXT name),
      (''max_size_mb'', apply_affinity INTEGER mb),
      (''resolution_profile'', apply_affinity TEXT prof),
      (''state'', VText SEARCHING), (''hash'', VNull)]"
  by (simp add: new_row_def movies_def_def)

lemma new_row_tv_shows:
  "new_row tv_shows_def rid
     [(''name'', name), (''max_episode_size_mb'', mb), (''resolution_profile'', prof)] =
     [(''id'', VInt rid), (''name'', apply_affinity TEXT name),
      (''max_episode_size_mb'', apply_affinity INTEGER mb),
      (''resolution_profile'', apply_affinity TEXT prof),
      (''state'', VText SEARCHING)]"
  by (simp add: new_row_def tv_shows_def_def)

lemma new_row_tv_show_seasons:
  "new_row tv_show_seasons_def rid
     [(''show_id'', show_id), (''season_number'', sn), (''season_number_episodes'', ep)] =
     [(''id'', VInt rid), (''show_id'', apply_affinity INTEGER show_id),
      (''season_number'', apply_affinity INTEGER sn),
      (''season_number_episodes'', apply_affinity INTEGER ep),
      (''state'', VText SEARCHING), (''hash'', VNull)]"
  by (simp add: new_row_def tv_show_seasons_def_def)

text \<open>When the constraints of the three tables hold for a new row.\<close>

lemma notnull_movies:
  "notnull_violation movies_def (column_names movies_def)
     [(''id'', i), (''name'', n), (''max_size_mb'', m), (''resolution_profile'', p),
      (''state'', VText s), (''hash'', h)] = None
   \<longleftrightarrow> n \<noteq> VNull \<and> m \<noteq> VNull \<and> p \<noteq> VNull"
  by (auto simp: notnull_violation_def movies_def_def column_names_def lookup_def)

lemma notnull_tv_shows:
  "notnull_violation tv_shows_def (column_names tv_shows_def)
     [(''id'', i), (''name'', n), (''max_episode_size_mb'', m), (''resolution_profile'', p),
      (''state'', VText s)] = None
   \<longleftrightarrow> n \<noteq> VNull \<and> m \<noteq> VNull \<and> p \<noteq> VNull"
  by (auto simp: notnull_violation_def tv_shows_def_def column_names_def lookup_def)

lemma notnull_tv_show_seasons:
  "notnull_violation tv_show_seasons_def (column_names tv_show_seasons_def)
     [(''id'', i), (''show_id'', k), (''season_number'', n), (''season_number_episodes'', m),
      (''state'', VText s), (''hash'', h)] = None
   \<longleftrightarrow> n \<noteq> VNull \<and> m \<noteq> VNull"
  by (auto simp: notnull_violation_def tv_show_seasons_def_def column_names_def lookup_def)

lemma unique_movies:
  "unique_violation movies_def (column_names movies_def) others
     [(''id'', i), (''name'', n), (''max_size_mb'', m), (''resolution_profile'', p),
      (''state'', s), (''hash'', h)] = None
   \<longleftrightarrow> n = VNull \<or> \<not> list_ex (\<lambda>r. lookup r ''name'' = n) others"
  by (auto simp: unique_violation_def movies_def_def column_names_def lookup_def same_key_def
        list_ex_iff)

lemma unique_tv_shows:
  "unique_violation tv_shows_def (column_names tv_shows_def) others
     [(''id'', i), (''name'', n), (''max_episode_size_mb'', m), (''resolution_profile'', p),
      (''state'', s)] = None
   \<longleftrightarrow> n = VNull \<or> \<not> list_ex (\<lambda>r. lookup r ''name'' = n) others"
  by (auto simp: unique_violation_def tv_shows_def_def column_names_def lookup_def same_key_def
        list_ex_iff)

lemma unique_tv_show_seasons:
  "unique_violation tv_show_seasons_def (column_names tv_show_seasons_def) others
     [(''id'', i), (''show_id'', k), (''season_number'', n), (''season_number_episodes'', m),
      (''state'', s), (''hash'', h)] = None
   \<longleftrightarrow> k = VNull \<or> n = VNull
       \<or> \<not> list_ex (\<lambda>r. lookup r ''show_id'' = k \<and> lookup r ''season_number'' = n) others"
  by (auto simp: unique_violation_def tv_show_seasons_def_def column_names_def lookup_def
        same_key_def list_ex_iff)
text \<open>What the three create operations do when the new row meets the constraints.\<close>

lemma add_movie_ok:
  assumes "in_int64 mb" "\<not> list_ex (\<lambda>r. lookup r ''name'' = VText name) (trows (movies c))"
  shows "add_movie c (VText name) (VInt mb) (VText prof) =
     (Inr (),
      (execute c ''INSERT INTO movies(name,max_size_mb,resolution_profile) VALUES(?,?,?)'')
        \<lparr>movies := \<lparr>trows = trows (movies c) @
            [[(''id'', VInt (next_rowid (movies c))), (''name'', VText name),
              (''max_size_mb'', VInt mb), (''resolution_profile'', VText prof),
              (''state'', VText SEARCHING), (''hash'', VNull)]],
          tseq = next_rowid (movies c)\<rparr>\<rparr>)"
proof -
  from assms(1) have b: "bind_error [VText name, VInt mb, VText prof] = None"
    by (simp add: bind_error_def)
  have "constraint_error movies_def (column_names movies_def) (trows (movies c))
          [(''id'', VInt (next_rowid (movies c))), (''name'', VText name),
           (''max_size_mb'', VInt mb), (''resolution_profile'', VText prof),
           (''state'', VText SEARCHING), (''hash'', VNull)] = None"
    using assms(2) by (simp add: constraint_error_None notnull_movies unique_movies)
  then have "sql_insert movies_def (movies c)
      [(''name'', VText name), (''max_size_mb'', VInt mb), (''resolution_profile'', VText prof)] =
      Inr \<lparr>trows = trows (movies c) @
            [[(''id'', VInt (next_rowid (movies c))), (''name'', VText name),
              (''max_size_mb'', VInt mb), (''resolution_profile'', VText prof),
              (''state'', VText SEARCHING), (''hash'', VNull)]],
          tseq = next_rowid (movies c)\<rparr>"
    by (simp add: sql_insert_cases new_row_movies)
  then show ?thesis
    by (simp add: add_movie_def Let_def b)
qed

lemma add_tv_show_ok:
  assumes "in_int64 mb" "\<not> list_ex (\<lambda>r. lookup r ''name'' = VText name) (trows (tv_shows c))"
  shows "add_tv_show c (VText name) (VInt mb) (VText prof) =
     (Inr (),
      (execute c ''INSERT INTO tv_shows(name,max_episode_size_mb,resolution_profile) VALUES(?,?,?)'')
        \<lparr>tv_shows := \<lparr>trows = trows (tv_shows c) @
            [[(''id'', VInt (next_rowid (tv_shows c))), (''name'', VText name),
              (''max_episode_size_mb'', VInt mb), (''resolution_profile'', VText prof),
              (''state'', VText SEARCHING)]],
          tseq = next_rowid (tv_shows c)\<rparr>\<rparr>)"
proof -
  from assms(1) have b: "bind_error [VText name, VInt mb, VText prof] = None"
    by (simp add: bind_error_def)
  have "constraint_error tv_shows_def (column_names tv_shows_def) (trows (tv_shows c))
          [(''id'', VInt (next_rowid (tv_shows c))), (''name'', VText name),
           (''max_episode_size_mb'', VInt mb), (''resolution_profile'', VText prof),
           (''state'', VText SEARCHING)] = None"
    using assms(2) by (simp add: constraint_error_None notnull_tv_shows unique_tv_shows)
  then have "sql_insert tv_shows_def (tv_shows c)
      [(''name'', VText name), (''max_episode_size_mb'', VInt mb), (''resolution_profile'', VText prof)] =
      Inr \<lparr>trows = trows (tv_shows c) @
            [[(''id'', VInt (next_rowid (tv_shows c))), (''name'', VText name),
              (''max_episode_size_mb'', VInt mb), (''resolution_profile'', VText prof),
              (''state'', VText SEARCHING)]],
          tseq = next_rowid (tv_shows c)\<rparr>"
    by (simp add: sql_insert_cases new_row_tv_shows)
  then show ?thesis
    by (simp add: add_tv_show_def Let_def b)
qed

lemma add_tv_show_season_ok:
  assumes "bindable k" "fits INTEGER k" "in_int64 sn" "in_int64 ep"
    and "k = VNull \<or> \<not> list_ex (\<lambda>r. lookup r ''show_id'' = k \<and> lookup r ''season_number'' = VInt sn)
                            (trows (tv_show_seasons c))"
  shows "add_tv_show_season c k (VInt sn) (VInt ep) =
     (Inr (),
      (execute c ''INSERT INTO tv_show_seasons(show_id,season_number, season_number_episodes) VALUES(?,?,?)'')
        \<lparr>tv_show_seasons := \<lparr>trows = trows (tv_show_seasons c) @
            [[(''id'', VInt (next_rowid (tv_show_seasons c))), (''show_id'', k),
              (''season_number'', VInt sn), (''season_number_episodes'', VInt ep),
              (''state'', VText SEARCHING), (''hash'', VNull)]],
          tseq = next_rowid (tv_show_seasons c)\<rparr>\<rparr>)"
proof -
  from assms(1,3,4) have b: "bind_error [k, VInt sn, VInt ep] = None"
    by (simp add: bind_error_def)
  from assms(2) have k: "apply_affinity INTEGER k = k"
    by (rule fits_apply_affinity)
  have "constraint_error tv_show_seasons_def (column_names tv_show_seasons_def)
          (trows (tv_show_seasons c))
          [(''id'', VInt (next_rowid (tv_show_seasons c))), (''show_id'', k),
           (''season_number'', VInt sn), (''season_number_episodes'', VInt ep),
           (''state'', VText SEARCHING), (''hash'', VNull)] = None"
    using assms(5)
    by (auto simp: constraint_error_None notnull_tv_show_seasons unique_tv_show_seasons)
  then have "sql_insert tv_show_seasons_def (tv_show_seasons c)
      [(''show_id'', k), (''season_number'', VInt sn), (''season_number_episodes'', VInt ep)] =
      Inr \<lparr>trows = trows (tv_show_seasons c) @
            [[(''id'', VInt (next_rowid (tv_show_seasons c))), (''show_id'', k),
              (''season_number'', VInt sn), (''season_number_episodes'', VInt ep),
              (''state'', VText SEARCHING), (''hash'', VNull)]],
          tseq = next_rowid (tv_show_seasons c)\<rparr>"
    by (simp add: sql_insert_cases new_row_tv_show_seasons k)
  then show ?thesis
    by (simp add: add_tv_show_season_def Let_def b)
qed

text \<open>What they do when the new row collides with a stored one on a UNIQUE key.\<close>

lemma unique_violation_integrity:
  "unique_violation d w others r \<noteq> None \<Longrightarrow> \<exists>msg. constraint_error d w others r = Some (IntegrityError msg)"
  by (auto simp: constraint_error_def split: option.splits)

lemma notnull_violation_integrity:
  "notnull_violation d w r \<noteq> None \<Longrightarrow> \<exists>msg. constraint_error d w others r = Some (IntegrityError msg)"
  by (auto simp: constraint_error_def split: option.splits)

lemma add_movie_collision:
  assumes "list_all bindable [name, mb, prof]"
    and "list_ex (\<lambda>r. lookup r ''name'' = apply_affinity TEXT name) (trows (movies c))"
  shows "\<exists>msg. add_movie c name mb prof =
     (Inl (IntegrityError msg),
      execute c ''INSERT INTO movies(name,max_size_mb,resolution_profile) VALUES(?,?,?)'')"
proof -
  let ?r = "new_row movies_def (next_rowid (movies c))
              [(''name'', name), (''max_size_mb'', mb), (''resolution_profile'', prof)]"
  have "notnull_violation movies_def (column_names movies_def) ?r \<noteq> None
        \<or> unique_violation movies_def (column_names movies_def) (trows (movies c)) ?r \<noteq> None"
    using assms(2) unfolding new_row_movies SEARCHING_def notnull_movies unique_movies by auto
  then obtain msg where "constraint_error movies_def (column_names movies_def) (trows (movies c)) ?r =
      Some (IntegrityError msg)"
    using unique_violation_integrity notnull_violation_integrity by blast
  then show ?thesis
    using assms(1) by (simp add: add_movie_def Let_def bind_error_def sql_insert_cases)
qed

lemma add_tv_show_collision:
  assumes "list_all bindable [name, mb, prof]"
    and "list_ex (\<lambda>r. lookup r ''name'' = apply_affinity TEXT name) (trows (tv_shows c))"
  shows "\<exists>msg. add_tv_show c name mb prof =
     (Inl (IntegrityError msg),
      execute c ''INSERT INTO tv_shows(name,max_episode_size_mb,resolution_profile) VALUES(?,?,?)'')"
proof -
  let ?r = "new_row tv_shows_def (next_rowid (tv_shows c))
              [(''name'', name), (''max_episode_size_mb'', mb), (''resolution_profile'', prof)]"
  have "notnull_violation tv_shows_def (column_names tv_shows_def) ?r \<noteq> None
        \<or> unique_violation tv_shows_def (column_names tv_shows_def) (trows (tv_shows c)) ?r \<noteq> None"
    using assms(2) unfolding new_row_tv_shows SEARCHING_def notnull_tv_shows unique_tv_shows by auto
  then obtain msg where "constraint_error tv_shows_def (column_names tv_shows_def) (trows (tv_shows c)) ?r =
      Some (IntegrityError msg)"
    using unique_violation_integrity notnull_violation_integrity by blast
  then show ?thesis
    using assms(1) by (simp add: add_tv_show_def Let_def bind_error_def sql_insert_cases)
qed

lemma add_tv_show_season_collision:
  assumes "in_int64 k" "in_int64 sn" "bindable ep"
    and "list_ex (\<lambda>r. lookup r ''show_id'' = VInt k \<and> lookup r ''season_number'' = VInt sn)
           (trows (tv_show_seasons c))"
  shows "\<exists>msg. add_tv_show_season c (VInt k) (VInt sn) ep =
     (Inl (IntegrityError msg),
      execute c ''INSERT INTO tv_show_seasons(show_id,season_number, season_number_episodes) VALUES(?,?,?)'')"
proof -
  let ?r = "new_row tv_show_seasons_def (next_rowid (tv_show_seasons c))
              [(''show_id'', VInt k), (''season_number'', VInt sn), (''season_number_episodes'', ep)]"
  have "notnull_violation tv_show_seasons_def (column_names tv_show_seasons_def) ?r \<noteq> None
        \<or> unique_violation tv_show_seasons_def (column_names tv_show_seasons_def)
             (trows (tv_show_seasons c)) ?r \<noteq> None"
    using assms(4) unfolding new_row_tv_show_seasons SEARCHING_def notnull_tv_show_seasons
      unique_tv_show_seasons by auto
  then obtain msg where "constraint_error tv_show_seasons_def (column_names tv_show_seasons_def)
      (trows (tv_show_seasons c)) ?r = Some (IntegrityError msg)"
    using unique_violation_integrity notnull_violation_integrity by blast
  then show ?thesis
    using assms(1-3) by (simp add: add_tv_show_season_def Let_def bind_error_def sql_insert_cases)
qed
lemma view_rows_set:
  "set_mset (tv_shows_with_seasons_view c) =
     {view_row sh se | sh se. sh \<in> set (trows (tv_shows c)) \<and> se \<in> set (trows (tv_show_seasons c))
        \<and> sql_eq (lookup sh ''id'') (lookup se ''show_id'')}"
  by (auto simp: view_as_pairs show_season_pairs_def)

lemma id_matches_VInt_fun: "id_matches (VInt n) = (\<lambda>r. lookup r ''id'' = VInt n)"
  by (rule ext) simp

lemma get_movie_rows:
  "in_int64 n \<Longrightarrow> has_columns movies_def (movies c) \<Longrightarrow>
   fst (get_movie c (VInt n)) =
     Inr (case filter (\<lambda>r. lookup r ''id'' = VInt n) (trows (movies c)) of [] \<Rightarrow> None | r # _ \<Rightarrow> Some r)"
  by (simp add: get_movie_def Let_def fetchone_select_columns has_columns_filter id_matches_VInt_fun)

lemma get_tv_show_rows:
  "in_int64 n \<Longrightarrow> has_columns tv_shows_def (tv_shows c) \<Longrightarrow>
   fst (get_tv_show c (VInt n)) =
     Inr (case filter (\<lambda>r. lookup r ''id'' = VInt n) (trows (tv_shows c)) of [] \<Rightarrow> None | r # _ \<Rightarrow> Some r)"
  by (simp add: get_tv_show_def Let_def fetchone_select_columns has_columns_filter id_matches_VInt_fun)

lemma filter_fresh_id:
  "filter (\<lambda>r. lookup r ''id'' = VInt (next_rowid t)) (trows t) = []"
  by (auto simp: filter_empty_conv dest: next_rowid_fresh)

subsection \<open>The example store\<close>

text \<open>
  The tables of the example store are what eight create calls and three update calls
  leave, starting from the empty store.
\<close>

lemma example_store_reachable:
  "(let c = empty_store;
        c = snd (add_movie c (VText ''Alien'') (VInt 700) (VText ''1080p''));
        c = snd (add_tv_show c (VText ''Foo'') (VInt 300) (VText ''720p''));
        c = snd (add_tv_show c (VText ''Bar'') (VInt 300) (VText ''720p''));
        c = snd (add_tv_show_season c (VInt 1) (VInt 1) (VInt 10));
        c = snd (add_tv_show_season c (VInt 1) (VInt 2) (VInt 8));
        c = snd (add_tv_show_season c (VInt 1) (VInt 3) (VInt 8));
        c = snd (add_tv_show_season c (VInt 7) (VInt 1) (VInt 5));
        c = snd (add_tv_show_season c VNull (VInt 1) (VInt 5));
        c = snd (update_show_season c (VInt 1) [(''state'', VText SEEDING)]);
        c = snd (update_show_season c (VInt 2) [(''state'', VText SEEDING)]);
        c = snd (update_show_season c (VInt 3) [(''state'', VText COMPLETED)])
    in c\<lparr>executed := []\<rparr>) = example_store"
  by code_simp

text \<open>
  Column affinity at work: ids and numbers given as text, as the type hints of the
  operations have them, are stored and compared as integers, and a name given as an
  integer is stored as its decimal text.
\<close>

lemma affinity_examples:
  "fst (get_movie example_store (VText ''1'')) = fst (get_movie example_store (VInt 1))"
  "trows (tv_show_seasons (snd (add_tv_show_season example_store (VText ''2'') (VText '' 4'') (VInt 9)))) =
     trows (tv_show_seasons example_store) @
       [[(''id'', VInt 6), (''show_id'', VInt 2), (''season_number'', VInt 4),
         (''season_number_episodes'', VInt 9), (''state'', VText ''SEARCHING''), (''hash'', VNull)]]"
  "map (\<lambda>r. lookup r ''name'') (trows (movies (snd (add_movie example_store (VInt 1917) (VInt 700) (VText ''4k''))))) =
     [VText ''Alien'', VText ''1917'']"
  "fst (add_movie example_store (VText ''Heat'') (VInt (2 ^ 63)) (VText ''4k'')) =
     Inl (OverflowError ''Python int too large to convert to SQLite INTEGER'')"
  "fst (add_movie example_store VNull (VInt 1) (VText ''4k'')) =
     Inl (IntegrityError ''NOT NULL constraint failed: movies.name'')"
  "fst (add_tv_show_season example_store (VInt 1) (VInt 1) (VInt 9)) =
     Inl (IntegrityError ''UNIQUE constraint failed: tv_show_seasons.show_id, tv_show_seasons.season_number'')"
  by code_simp+
subsection \<open>What an UPDATE stores\<close>




text \<open>
  The season that \<^verbatim>\<open>add_tv_show_season\<close> stores for arguments of any storage class:
  the show id and the season number converted to INTEGER affinity.
\<close>

lemma add_tv_show_season_stored:
  assumes "bindable k" "bindable sn" "in_int64 ep" "apply_affinity INTEGER sn \<noteq> VNull"
    and "apply_affinity INTEGER k = VNull
         \<or> \<not> list_ex (\<lambda>r. lookup r ''show_id'' = apply_affinity INTEGER k
                          \<and> lookup r ''season_number'' = apply_affinity INTEGER sn)
                (trows (tv_show_seasons c))"
  shows "add_tv_show_season c k sn (VInt ep) =
     (Inr (),
      (execute c ''INSERT INTO tv_show_seasons(show_id,season_number, season_number_episodes) VALUES(?,?,?)'')
        \<lparr>tv_show_seasons := \<lparr>trows = trows (tv_show_seasons c) @
            [[(''id'', VInt (next_rowid (tv_show_seasons c))), (''show_id'', apply_affinity INTEGER k),
              (''season_number'', apply_affinity INTEGER sn), (''season_number_episodes'', VInt ep),
              (''state'', VText SEARCHING), (''hash'', VNull)]],
          tseq = next_rowid (tv_show_seasons c)\<rparr>\<rparr>)"
proof -
  from assms(1-3) have b: "bind_error [k, sn, VInt ep] = None"
    by (simp add: bind_error_def)
  have "constraint_error tv_show_seasons_def (column_names tv_show_seasons_def)
          (trows (tv_show_seasons c))
          [(''id'', VInt (next_rowid (tv_show_seasons c))), (''show_id'', apply_affinity INTEGER k),
           (''season_number'', apply_affinity INTEGER sn), (''season_number_episodes'', VInt ep),
           (''state'', VText SEARCHING), (''hash'', VNull)] = None"
    using assms(4,5)
    by (auto simp: constraint_error_None notnull_tv_show_seasons unique_tv_show_seasons)
  then have "sql_insert tv_show_seasons_def (tv_show_seasons c)
      [(''show_id'', k), (''season_number'', sn), (''season_number_episodes'', VInt ep)] =
      Inr \<lparr>trows = trows (tv_show_seasons c) @
            [[(''id'', VInt (next_rowid (tv_show_seasons c))), (''show_id'', apply_affinity INTEGER k),
              (''season_number'', apply_affinity INTEGER sn), (''season_number_episodes'', VInt ep),
              (''state'', VText SEARCHING), (''hash'', VNull)]],
          tseq = next_rowid (tv_show_seasons c)\<rparr>"
    by (simp add: sql_insert_cases new_row_tv_show_seasons)
  then show ?thesis
    by (simp add: add_tv_show_season_def Let_def b)
qed

section \<open>The claims\<close>

subsection \<open>C1: an invalid update request is rejected before any statement\<close>

text \<open>
  C1, as stated: an update with an empty mapping fails with the "empty update" error, an
  update with a key outside the allow-list fails with an "unknown column" error that
  names the offending key and the allowed set, and both fail before any write. The
  message of the second error is built from the allow-list alone. Here the call of the
  spec's own example, \<^verbatim>\<open>update_movie(1, bogus_field=1)\<close>: it raises the exception with
  the allow-list in its message, and \<^verbatim>\<open>bogus_field\<close> does not occur in that message.
\<close>

theorem C1_message_omits_key:
  "fst (update_movie example_store (VInt 1) [(''bogus_field'', VInt 1)]) =
     Inl (Exception (''The key argument must be one of the following: ''
                      @ py_repr_list movie_table_columns))
   \<and> \<not> py_in_str ''bogus_field''
         (''The key argument must be one of the following: '' @ py_repr_list movie_table_columns)"
  by code_simp

text \<open>
  C1, amended: for each of the three update operations, a call fails before any
  statement is issued, and leaves the state exactly as it found it, in these cases.
  An empty mapping raises \<^verbatim>\<open>Exception("At least one argument must be specified")\<close>.
  A mapping with a key outside the allow-list of the entity, and without the keys
  \<^verbatim>\<open>self\<close> and \<^verbatim>\<open>id\<close>, raises the exception whose message lists the allowed set
  (and not the key). A mapping with the key \<^verbatim>\<open>self\<close> or \<^verbatim>\<open>id\<close>, which are outside
  every allow-list and are the names of the two parameters of the operation, raises the
  \<^verbatim>\<open>TypeError\<close> of Python's argument binding, which names the first such key.
\<close>

theorem C1_invalid_update_rejected:
  "update_movie c i [] = (Inl (Exception ''At least one argument must be specified''), c)
   \<and> update_tv_show c i [] = (Inl (Exception ''At least one argument must be specified''), c)
   \<and> update_show_season c i [] = (Inl (Exception ''At least one argument must be specified''), c)
   \<and> (find (\<lambda>key. key \<in> set bound_parameters) (map fst kwargs) = None
        \<and> (k, v) \<in> set kwargs \<and> k \<notin> set movie_table_columns \<longrightarrow>
        update_movie c i kwargs =
          (Inl (Exception (''The key argument must be one of the following: ''
                            @ py_repr_list movie_table_columns)), c))
   \<and> (find (\<lambda>key. key \<in> set bound_parameters) (map fst kwargs) = None
        \<and> (k, v) \<in> set kwargs \<and> k \<notin> set tv_shows_table_columns \<longrightarrow>
        update_tv_show c i kwargs =
          (Inl (Exception (''The key argument must be one of the following: ''
                            @ py_repr_list tv_shows_table_columns)), c))
   \<and> (find (\<lambda>key. key \<in> set bound_parameters) (map fst kwargs) = None
        \<and> (k, v) \<in> set kwargs \<and> k \<notin> set tv_show_season_table_columns \<longrightarrow>
        update_show_season c i kwargs =
          (Inl (Exception (''The key argument must be one of the following: ''
                            @ py_repr_list tv_show_season_table_columns)), c))
   \<and> (find (\<lambda>key. key \<in> set bound_parameters) (map fst kwargs) = Some p \<longrightarrow>
        update_movie c i kwargs =
          (Inl (TypeError (''TBDatabase.update_movie() got multiple values for argument ''
                            @ py_repr_str p)), c)
        \<and> update_tv_show c i kwargs =
          (Inl (TypeError (''TBDatabase.update_tv_show() got multiple values for argument ''
                            @ py_repr_str p)), c)
        \<and> update_show_season c i kwargs =
          (Inl (TypeError (''TBDatabase.update_show_season() got multiple values for argument ''
                            @ py_repr_str p)), c))"
proof -
  have empty: "bind_keywords fname [] = None" for fname
    by (simp add: bind_keywords_def)
  have bad: "update_loop cols kwargs ([], []) =
      Inl (Exception (''The key argument must be one of the following: '' @ py_repr_list cols))"
    if "(k, v) \<in> set kwargs" "k \<notin> set cols" for cols
    using that by (intro update_loop_bad) force
  have ne: "kwargs \<noteq> []" if "(k, v) \<in> set kwargs"
    using that by auto
  have unbound: "bind_keywords fname kwargs = None"
    if "find (\<lambda>key. key \<in> set bound_parameters) (map fst kwargs) = None" for fname
    using that by (simp add: bind_keywords_def)
  show ?thesis
    by (simp add: update_movie_def update_tv_show_def update_show_season_def empty bad ne unbound
          bind_keywords_Some)
qed

text \<open>
  On the example store: a mapping with an allowed key first and \<^verbatim>\<open>bogus_field\<close>
  second raises the exception with the allow-list, and a mapping with \<^verbatim>\<open>bogus_field\<close>
  first and \<^verbatim>\<open>id\<close> second raises the \<^verbatim>\<open>TypeError\<close> for \<^verbatim>\<open>id\<close>; the store is the
  example store still.
\<close>

theorem C1_invalid_update_rejected_witness:
  "update_movie example_store (VInt 1) [(''state'', VText ''DOWNLOADING''), (''bogus_field'', VInt 1)] =
     (Inl (Exception (''The key argument must be one of the following: ''
                       @ py_repr_list movie_table_columns)), example_store)
   \<and> update_tv_show example_store (VInt 1) [(''state'', VText ''DOWNLOADING''), (''bogus_field'', VInt 1)] =
     (Inl (Exception (''The key argument must be one of the following: ''
                       @ py_repr_list tv_shows_table_columns)), example_store)
   \<and> update_show_season example_store (VInt 1) [(''state'', VText ''DOWNLOADING''), (''bogus_field'', VInt 1)] =
     (Inl (Exception (''The key argument must be one of the following: ''
                       @ py_repr_list tv_show_season_table_columns)), example_store)
   \<and> update_movie example_store (VInt 1) [(''bogus_field'', VInt 1), (''id'', VInt 2)] =
     (Inl (TypeError (''TBDatabase.update_movie() got multiple values for argument ''
                       @ py_repr_str ''id'')), example_store)"
proof -
  have u: "find (\<lambda>key. key \<in> set bound_parameters)
             (map fst [(''state'', VText ''DOWNLOADING''), (''bogus_field'', VInt 1)]) = None"
    by code_simp
  have b: "find (\<lambda>key. key \<in> set bound_parameters)
             (map fst [(''bogus_field'', VInt 1), (''id'', VInt 2)]) = Some ''id''"
    by code_simp
  have k: "''bogus_field'' \<notin> set movie_table_columns" "''bogus_field'' \<notin> set tv_shows_table_columns"
    "''bogus_field'' \<notin> set tv_show_season_table_columns"
    by code_simp+
  from C1_invalid_update_rejected [of example_store "VInt 1"
          "[(''state'', VText ''DOWNLOADING''), (''bogus_field'', VInt 1)]" "''bogus_field''" "VInt 1" "''x''"]
       C1_invalid_update_rejected [of example_store "VInt 1"
          "[(''bogus_field'', VInt 1), (''id'', VInt 2)]" "''bogus_field''" "VInt 1" "''id''"]
       u b k
  show ?thesis by simp
qed

subsection \<open>C2: the update operations do not validate the state\<close>

text \<open>
  C2, as stated: an update that assigns the state column a value outside the enumerated
  set fails with an invalid-state error before touching storage, and the row is left
  unchanged. The update operations have no such check: the loop looks at the keys only.
  On the example store, \<^verbatim>\<open>update_movie(1, state="NOT_A_STATE")\<close> returns normally, and
  the movie then has the state \<^verbatim>\<open>NOT_A_STATE\<close>, which is none of the six states.
\<close>

theorem C2_invalid_state_accepted:
  "fst (update_movie example_store (VInt 1) [(''state'', VText ''NOT_A_STATE'')]) = Inr ()
   \<and> map (\<lambda>r. lookup r ''state'')
         (trows (movies (snd (update_movie example_store (VInt 1) [(''state'', VText ''NOT_A_STATE'')]))))
       = [VText ''NOT_A_STATE'']
   \<and> ''NOT_A_STATE'' \<notin> set get_states"
  by code_simp

text \<open>
  C2, amended: the update operations accept any text as the new state, inside or
  outside the enumerated set. For each of the three operations, on a well-formed store
  and with an integer id of 64 bits, the call with the mapping \<^verbatim>\<open>{state: s}\<close> returns
  normally for every text \<open>s\<close>, and it leaves the table with the state of the rows of
  that id set to \<open>s\<close> and everything else in the table as it was.
\<close>

theorem C2_update_accepts_any_state:
  assumes "well_formed c" "in_int64 n"
  shows "fst (update_movie c (VInt n) [(''state'', VText s)]) = Inr ()
      \<and> patched_table [(''state'', VText s)] n (movies c)
           (movies (snd (update_movie c (VInt n) [(''state'', VText s)])))
      \<and> fst (update_tv_show c (VInt n) [(''state'', VText s)]) = Inr ()
      \<and> patched_table [(''state'', VText s)] n (tv_shows c)
           (tv_shows (snd (update_tv_show c (VInt n) [(''state'', VText s)])))
      \<and> fst (update_show_season c (VInt n) [(''state'', VText s)]) = Inr ()
      \<and> patched_table [(''state'', VText s)] n (tv_show_seasons c)
           (tv_show_seasons (snd (update_show_season c (VInt n) [(''state'', VText s)])))"
proof -
  let ?kw = "[(''state'', VText s)]"
  from assms(2) have b: "bind_error [VText s, VInt n] = None"
    by (simp add: bind_error_def)
  from assms(1) have wf: "has_columns movies_def (movies c)" "has_columns tv_shows_def (tv_shows c)"
      "has_columns tv_show_seasons_def (tv_show_seasons c)"
    by (simp_all add: well_formed_def)
  note u1 = sql_update_state_only [OF wf(1) state_column_facts(1-3), of s "VInt n"]
  note u2 = sql_update_state_only [OF wf(2) state_column_facts(4-6), of s "VInt n"]
  note u3 = sql_update_state_only [OF wf(3) state_column_facts(7-9), of s "VInt n"]
  have m: "fst (update_movie c (VInt n) ?kw) = Inr ()
      \<and> patched_table ?kw n (movies c) (movies (snd (update_movie c (VInt n) ?kw)))"
    using sql_update_patched [OF u1 fits_state_text(1)]
    by (simp add: update_movie_valid movie_table_columns_def b u1 Let_def)
  have t: "fst (update_tv_show c (VInt n) ?kw) = Inr ()
      \<and> patched_table ?kw n (tv_shows c) (tv_shows (snd (update_tv_show c (VInt n) ?kw)))"
    using sql_update_patched [OF u2 fits_state_text(2)]
    by (simp add: update_tv_show_valid tv_shows_table_columns_def b u2 Let_def)
  have s: "fst (update_show_season c (VInt n) ?kw) = Inr ()
      \<and> patched_table ?kw n (tv_show_seasons c)
           (tv_show_seasons (snd (update_show_season c (VInt n) ?kw)))"
    using sql_update_patched [OF u3 fits_state_text(3)]
    by (simp add: update_show_season_valid tv_show_season_table_columns_def b u3 Let_def)
  from m t s show ?thesis by blast
qed

text \<open>
  On the example store, with the id 1 and the text \<^verbatim>\<open>NOT_A_STATE\<close>: the three updates
  return normally.
\<close>

theorem C2_update_accepts_any_state_witness:
  "well_formed example_store \<and> in_int64 1
   \<and> fst (update_movie example_store (VInt 1) [(''state'', VText ''NOT_A_STATE'')]) = Inr ()
   \<and> patched_table [(''state'', VText ''NOT_A_STATE'')] 1 (movies example_store)
        (movies (snd (update_movie example_store (VInt 1) [(''state'', VText ''NOT_A_STATE'')])))
   \<and> fst (update_tv_show example_store (VInt 1) [(''state'', VText ''NOT_A_STATE'')]) = Inr ()
   \<and> fst (update_show_season example_store (VInt 1) [(''state'', VText ''NOT_A_STATE'')]) = Inr ()"
proof -
  have wf: "well_formed example_store" by code_simp
  have b: "in_int64 1" by code_simp
  from C2_update_accepts_any_state [OF wf b, of "''NOT_A_STATE''"] wf b show ?thesis by blast
qed

subsection \<open>C3: uniqueness on create\<close>

text \<open>
  C3, as stated: \<^verbatim>\<open>add_tv_show_season\<close> with a (show_id, season_number) pair that is
  already present fails with a constraint violation, and the second row is never
  created. The column \<^verbatim>\<open>show_id\<close> may be NULL, and a UNIQUE constraint of SQLite never
  takes two NULLs as equal. The example store has a season with \<^verbatim>\<open>show_id\<close> NULL and
  \<^verbatim>\<open>season_number\<close> 1; \<^verbatim>\<open>add_tv_show_season(None, 1, 5)\<close> returns normally, and
  afterwards two rows carry that pair.
\<close>

theorem C3_null_show_id_pair_repeats:
  "length (filter (\<lambda>r. lookup r ''show_id'' = VNull \<and> lookup r ''season_number'' = VInt 1)
             (trows (tv_show_seasons example_store))) = 1
   \<and> fst (add_tv_show_season example_store VNull (VInt 1) (VInt 5)) = Inr ()
   \<and> length (filter (\<lambda>r. lookup r ''show_id'' = VNull \<and> lookup r ''season_number'' = VInt 1)
             (trows (tv_show_seasons (snd (add_tv_show_season example_store VNull (VInt 1) (VInt 5)))))) = 2"
  by code_simp

text \<open>
  C3, amended: \<^verbatim>\<open>add_movie\<close> or \<^verbatim>\<open>add_tv_show\<close> with a name already present in its
  table, and \<^verbatim>\<open>add_tv_show_season\<close> with a pair of a show id that is not NULL and a
  season number already present, fail with \<^verbatim>\<open>sqlite3.IntegrityError\<close>, which is not
  the generic exception, and leave the three tables as they were; and
  \<^verbatim>\<open>add_tv_show_season\<close> with a pair that no row carries returns normally and appends
  the new season, also when other shows have a season of that number. (A pair with a
  NULL show id collides with nothing.)
\<close>

theorem C3_unique_on_create:
  "(list_all bindable [mb, prof] \<and> list_ex (\<lambda>r. lookup r ''name'' = VText name) (trows (movies c)) \<longrightarrow>
      constraint_violation (fst (add_movie c (VText name) mb prof))
      \<and> movies (snd (add_movie c (VText name) mb prof)) = movies c
      \<and> tv_shows (snd (add_movie c (VText name) mb prof)) = tv_shows c
      \<and> tv_show_seasons (snd (add_movie c (VText name) mb prof)) = tv_show_seasons c)
   \<and> (list_all bindable [mb, prof] \<and> list_ex (\<lambda>r. lookup r ''name'' = VText name) (trows (tv_shows c)) \<longrightarrow>
      constraint_violation (fst (add_tv_show c (VText name) mb prof))
      \<and> movies (snd (add_tv_show c (VText name) mb prof)) = movies c
      \<and> tv_shows (snd (add_tv_show c (VText name) mb prof)) = tv_shows c
      \<and> tv_show_seasons (snd (add_tv_show c (VText name) mb prof)) = tv_show_seasons c)
   \<and> (in_int64 k \<and> in_int64 sn \<and> bindable ep
        \<and> list_ex (\<lambda>r. lookup r ''show_id'' = VInt k \<and> lookup r ''season_number'' = VInt sn)
             (trows (tv_show_seasons c)) \<longrightarrow>
      constraint_violation (fst (add_tv_show_season c (VInt k) (VInt sn) ep))
      \<and> movies (snd (add_tv_show_season c (VInt k) (VInt sn) ep)) = movies c
      \<and> tv_shows (snd (add_tv_show_season c (VInt k) (VInt sn) ep)) = tv_shows c
      \<and> tv_show_seasons (snd (add_tv_show_season c (VInt k) (VInt sn) ep)) = tv_show_seasons c)
   \<and> (in_int64 k \<and> in_int64 sn \<and> in_int64 n
        \<and> \<not> list_ex (\<lambda>r. lookup r ''show_id'' = VInt k \<and> lookup r ''season_number'' = VInt sn)
               (trows (tv_show_seasons c)) \<longrightarrow>
      fst (add_tv_show_season c (VInt k) (VInt sn) (VInt n)) = Inr ()
      \<and> trows (tv_show_seasons (snd (add_tv_show_season c (VInt k) (VInt sn) (VInt n)))) =
          trows (tv_show_seasons c) @
            [[(''id'', VInt (next_rowid (tv_show_seasons c))), (''show_id'', VInt k),
              (''season_number'', VInt sn), (''season_number_episodes'', VInt n),
              (''state'', VText SEARCHING), (''hash'', VNull)]])"
proof (intro conjI impI; elim conjE)
  assume "list_all bindable [mb, prof]" "list_ex (\<lambda>r. lookup r ''name'' = VText name) (trows (movies c))"
  then obtain msg where "add_movie c (VText name) mb prof =
      (Inl (IntegrityError msg),
       execute c ''INSERT INTO movies(name,max_size_mb,resolution_profile) VALUES(?,?,?)'')"
    using add_movie_collision [of "VText name" mb prof c] by auto
  then show "constraint_violation (fst (add_movie c (VText name) mb prof))"
    "movies (snd (add_movie c (VText name) mb prof)) = movies c"
    "tv_shows (snd (add_movie c (VText name) mb prof)) = tv_shows c"
    "tv_show_seasons (snd (add_movie c (VText name) mb prof)) = tv_show_seasons c"
    by simp_all
next
  assume "list_all bindable [mb, prof]" "list_ex (\<lambda>r. lookup r ''name'' = VText name) (trows (tv_shows c))"
  then obtain msg where "add_tv_show c (VText name) mb prof =
      (Inl (IntegrityError msg),
       execute c ''INSERT INTO tv_shows(name,max_episode_size_mb,resolution_profile) VALUES(?,?,?)'')"
    using add_tv_show_collision [of "VText name" mb prof c] by auto
  then show "constraint_violation (fst (add_tv_show c (VText name) mb prof))"
    "movies (snd (add_tv_show c (VText name) mb prof)) = movies c"
    "tv_shows (snd (add_tv_show c (VText name) mb prof)) = tv_shows c"
    "tv_show_seasons (snd (add_tv_show c (VText name) mb prof)) = tv_show_seasons c"
    by simp_all
next
  assume "in_int64 k" "in_int64 sn" "bindable ep"
    "list_ex (\<lambda>r. lookup r ''show_id'' = VInt k \<and> lookup r ''season_number'' = VInt sn)
       (trows (tv_show_seasons c))"
  from add_tv_show_season_collision [OF this] obtain msg
    where "add_tv_show_season c (VInt k) (VInt sn) ep =
      (Inl (IntegrityError msg),
       execute c ''INSERT INTO tv_show_seasons(show_id,season_number, season_number_episodes) VALUES(?,?,?)'')"
    by blast
  then show "constraint_violation (fst (add_tv_show_season c (VInt k) (VInt sn) ep))"
    "movies (snd (add_tv_show_season c (VInt k) (VInt sn) ep)) = movies c"
    "tv_shows (snd (add_tv_show_season c (VInt k) (VInt sn) ep)) = tv_shows c"
    "tv_show_seasons (snd (add_tv_show_season c (VInt k) (VInt sn) ep)) = tv_show_seasons c"
    by simp_all
next
  assume "in_int64 k" "in_int64 sn" "in_int64 n"
    "\<not> list_ex (\<lambda>r. lookup r ''show_id'' = VInt k \<and> lookup r ''season_number'' = VInt sn)
         (trows (tv_show_seasons c))"
  then have ok: "add_tv_show_season c (VInt k) (VInt sn) (VInt n) = (Inr (),
      (execute c ''INSERT INTO tv_show_seasons(show_id,season_number, season_number_episodes) VALUES(?,?,?)'')
        \<lparr>tv_show_seasons := \<lparr>trows = trows (tv_show_seasons c) @
            [[(''id'', VInt (next_rowid (tv_show_seasons c))), (''show_id'', VInt k),
              (''season_number'', VInt sn), (''season_number_episodes'', VInt n),
              (''state'', VText SEARCHING), (''hash'', VNull)]],
          tseq = next_rowid (tv_show_seasons c)\<rparr>\<rparr>)"
    by (intro add_tv_show_season_ok) simp_all
  show "fst (add_tv_show_season c (VInt k) (VInt sn) (VInt n)) = Inr ()"
    "trows (tv_show_seasons (snd (add_tv_show_season c (VInt k) (VInt sn) (VInt n)))) =
          trows (tv_show_seasons c) @
            [[(''id'', VInt (next_rowid (tv_show_seasons c))), (''show_id'', VInt k),
              (''season_number'', VInt sn), (''season_number_episodes'', VInt n),
              (''state'', VText SEARCHING), (''hash'', VNull)]]"
    by (simp_all add: ok)
qed

text \<open>
  On the example store: a second movie "Alien", a second show "Foo" and a second season
  1 of show 1 are refused and change nothing; a season 1 of show 2 is accepted, although
  show 1 has a season 1, and gets the id 6.
\<close>

theorem C3_unique_on_create_witness:
  "constraint_violation (fst (add_movie example_store (VText ''Alien'') (VInt 1) (VText ''4k'')))
   \<and> movies (snd (add_movie example_store (VText ''Alien'') (VInt 1) (VText ''4k''))) = movies example_store
   \<and> constraint_violation (fst (add_tv_show example_store (VText ''Foo'') (VInt 1) (VText ''4k'')))
   \<and> tv_shows (snd (add_tv_show example_store (VText ''Foo'') (VInt 1) (VText ''4k''))) = tv_shows example_store
   \<and> constraint_violation (fst (add_tv_show_season example_store (VInt 1) (VInt 1) (VInt 12)))
   \<and> tv_show_seasons (snd (add_tv_show_season example_store (VInt 1) (VInt 1) (VInt 12))) =
       tv_show_seasons example_store
   \<and> fst (add_tv_show_season example_store (VInt 2) (VInt 1) (VInt 12)) = Inr ()
   \<and> trows (tv_show_seasons (snd (add_tv_show_season example_store (VInt 2) (VInt 1) (VInt 12)))) =
       trows (tv_show_seasons example_store) @
         [[(''id'', VInt 6), (''show_id'', VInt 2), (''season_number'', VInt 1),
           (''season_number_episodes'', VInt 12), (''state'', VText SEARCHING), (''hash'', VNull)]]"
proof -
  have b: "list_all bindable [VInt 1, VText ''4k'']" "in_int64 1" "in_int64 2" "in_int64 12"
    "bindable (VInt 12)"
    by code_simp+
  have dup: "list_ex (\<lambda>r. lookup r ''name'' = VText ''Alien'') (trows (movies example_store))"
    "list_ex (\<lambda>r. lookup r ''name'' = VText ''Foo'') (trows (tv_shows example_store))"
    "list_ex (\<lambda>r. lookup r ''show_id'' = VInt 1 \<and> lookup r ''season_number'' = VInt 1)
       (trows (tv_show_seasons example_store))"
    by code_simp+
  have new: "\<not> list_ex (\<lambda>r. lookup r ''show_id'' = VInt 2 \<and> lookup r ''season_number'' = VInt 1)
       (trows (tv_show_seasons example_store))"
    by code_simp
  have nid: "next_rowid (tv_show_seasons example_store) = 6"
    by code_simp
  from C3_unique_on_create [of "VInt 1" "VText ''4k''" "''Alien''" example_store 1 1 "VInt 12" 12]
       C3_unique_on_create [of "VInt 1" "VText ''4k''" "''Foo''" example_store 2 1 "VInt 12" 12]
       b dup new
  show ?thesis
    by (simp add: nid)
qed

subsection \<open>C4: state-filtered reads\<close>

text \<open>
  C4: for a state outside the enumerated set, \<^verbatim>\<open>get_movies_with_state\<close> and
  \<^verbatim>\<open>get_tv_shows_with_state\<close> raise the exception "Non allowed state=...!" and leave
  the store as they found it, with no statement executed. For a state of the set, on a
  well-formed store, they return exactly the rows of their table whose state is the
  argument, and they leave the three tables as they were.
\<close>

theorem C4_state_filtered_reads:
  "(state \<notin> set (map VText get_states) \<longrightarrow>
      get_movies_with_state c state =
        (Inl (Exception (''Non allowed state='' @ py_str state @ ''!'')), c)
      \<and> get_tv_shows_with_state c state =
        (Inl (Exception (''Non allowed state='' @ py_str state @ ''!'')), c))
   \<and> (well_formed c \<and> s \<in> set get_states \<longrightarrow>
      fst (get_movies_with_state c (VText s)) =
        Inr (filter (\<lambda>r. lookup r ''state'' = VText s) (trows (movies c)))
      \<and> fst (get_tv_shows_with_state c (VText s)) =
        Inr (filter (\<lambda>r. lookup r ''state'' = VText s) (trows (tv_shows c)))
      \<and> snd (get_movies_with_state c (VText s)) = execute c ''SELECT * FROM movies WHERE state=?''
      \<and> snd (get_tv_shows_with_state c (VText s)) = execute c ''SELECT * FROM tv_shows WHERE state=?'')"
proof -
  have eq: "sql_eq v (VText s) \<longleftrightarrow> v = VText s" for v
    by (auto simp: sql_eq_def)
  have b: "bind_error [VText s] = None"
    by (simp add: bind_error_def)
  have "fst (get_movies_with_state c (VText s)) =
          Inr (filter (\<lambda>r. lookup r ''state'' = VText s) (trows (movies c)))
        \<and> fst (get_tv_shows_with_state c (VText s)) =
          Inr (filter (\<lambda>r. lookup r ''state'' = VText s) (trows (tv_shows c)))
        \<and> snd (get_movies_with_state c (VText s)) = execute c ''SELECT * FROM movies WHERE state=?''
        \<and> snd (get_tv_shows_with_state c (VText s)) = execute c ''SELECT * FROM tv_shows WHERE state=?''"
    if wf: "well_formed c" and s: "s \<in> set get_states"
  proof -
    from wf have "has_columns movies_def (movies c)" "has_columns tv_shows_def (tv_shows c)"
      by (simp_all add: well_formed_def)
    then have "fetchall (select_columns (column_names movies_def)
                 (filter (\<lambda>r. lookup r ''state'' = VText s) (trows (movies c)))) =
               filter (\<lambda>r. lookup r ''state'' = VText s) (trows (movies c))"
      and "fetchall (select_columns (column_names tv_shows_def)
                 (filter (\<lambda>r. lookup r ''state'' = VText s) (trows (tv_shows c)))) =
               filter (\<lambda>r. lookup r ''state'' = VText s) (trows (tv_shows c))"
      by (simp_all add: fetchall_select_columns has_columns_filter)
    with s show ?thesis
      by (simp add: get_movies_with_state_def get_tv_shows_with_state_def Let_def b eq image_iff)
  qed
  then show ?thesis
    by (simp add: get_movies_with_state_def get_tv_shows_with_state_def)
qed

text \<open>
  On the example store: \<^verbatim>\<open>NOT_A_STATE\<close> is refused by both reads and the store is
  the example store still; the one movie is SEARCHING and is returned for that state; no
  show is SEEDING.
\<close>

theorem C4_state_filtered_reads_witness:
  "get_movies_with_state example_store (VText ''NOT_A_STATE'') =
     (Inl (Exception ''Non allowed state=NOT_A_STATE!''), example_store)
   \<and> get_tv_shows_with_state example_store (VText ''NOT_A_STATE'') =
     (Inl (Exception ''Non allowed state=NOT_A_STATE!''), example_store)
   \<and> fst (get_movies_with_state example_store (VText ''SEARCHING'')) =
     Inr (trows (movies example_store))
   \<and> fst (get_tv_shows_with_state example_store (VText ''SEEDING'')) = Inr []"
proof -
  have bad: "VText ''NOT_A_STATE'' \<notin> set (map VText get_states)" by code_simp
  have wf: "well_formed example_store" by code_simp
  have s1: "''SEARCHING'' \<in> set get_states" and s2: "''SEEDING'' \<in> set get_states" by code_simp+
  have f1: "filter (\<lambda>r. lookup r ''state'' = VText ''SEARCHING'') (trows (movies example_store)) =
              trows (movies example_store)" by code_simp
  have f2: "filter (\<lambda>r. lookup r ''state'' = VText ''SEEDING'') (trows (tv_shows example_store)) = []"
    by code_simp
  from C4_state_filtered_reads [of "VText ''NOT_A_STATE''" example_store "''SEARCHING''"]
       C4_state_filtered_reads [of "VText ''NOT_A_STATE''" example_store "''SEEDING''"]
       bad wf s1 s2 f1 f2
  show ?thesis by simp
qed

subsection \<open>C5: what a successful update changes\<close>




subsection \<open>C6: reading a created row back\<close>

text \<open>
  C6, as stated: after every valid insert, a read by id of the new row returns a record
  with the state SEARCHING and the supplied values. The code has no read of a season by
  its id; a season is read through the view only, which joins it with its show, and the
  values are read back as the columns store them. On the example store,
  \<^verbatim>\<open>add_tv_show_season(42, 1, 6)\<close> returns normally, and then
  \<^verbatim>\<open>get_tv_show_with_seasons(42)\<close> is empty and \<^verbatim>\<open>get_all_tv_shows_with_seasons\<close>
  returns what it returned before: no read returns the new season.
  \<^verbatim>\<open>add_tv_show_season('2', '1', 6)\<close>, with texts as its signature has them, returns
  normally, and the row that \<^verbatim>\<open>get_tv_show_with_seasons('2')\<close> then returns has the
  integers 2 and 1 where the texts were supplied.
\<close>

theorem C6_season_read_back_differs:
  "fst (add_tv_show_season example_store (VInt 42) (VInt 1) (VInt 6)) = Inr ()
   \<and> fst (get_tv_show_with_seasons
            (snd (add_tv_show_season example_store (VInt 42) (VInt 1) (VInt 6))) (VInt 42)) = Inr {#}
   \<and> fst (get_all_tv_shows_with_seasons
            (snd (add_tv_show_season example_store (VInt 42) (VInt 1) (VInt 6)))) =
       fst (get_all_tv_shows_with_seasons example_store)
   \<and> fst (add_tv_show_season example_store (VText ''2'') (VText ''1'') (VInt 6)) = Inr ()
   \<and> fst (get_tv_show_with_seasons
            (snd (add_tv_show_season example_store (VText ''2'') (VText ''1'') (VInt 6))) (VText ''2'')) =
       Inr {#[(''show_id'', VInt 2), (''show_name'', VText ''Bar''), (''show_state'', VText ''SEARCHING''),
              (''season_id'', VInt 6), (''season_number'', VInt 1), (''season_number_episodes'', VInt 6),
              (''season_state'', VText ''SEARCHING''), (''season_hash'', VNull)]#}"
  by code_simp

text \<open>
  C6, amended: on a store whose tables have the columns of the schema, after a valid
  \<^verbatim>\<open>add_movie\<close> (a text name that no movie has, an integer size, a text profile),
  \<^verbatim>\<open>get_movie\<close> with the id of the new row returns the record with that id, the
  three supplied values, the state SEARCHING and a NULL hash; after a valid
  \<^verbatim>\<open>add_tv_show\<close>, \<^verbatim>\<open>get_tv_show\<close> returns the record with the id, the three
  supplied values and the state SEARCHING. The create operations return nothing; the id
  of the new row is the one AUTOINCREMENT hands out, \<open>next_rowid\<close> of the table before
  the call, taken to fit 64 bits. A season has no read by its id: it is read through the
  view. After a valid \<^verbatim>\<open>add_tv_show_season\<close> (a show id and a season number, texts
  or integers, that the model converts as SQLite does, the season number not NULL, an
  integer episode count, no season with the same show and number), every row that a read
  of the view returns for the new season carries the show id and the season number
  converted to INTEGER affinity, the episode count, the state SEARCHING and a NULL hash;
  \<^verbatim>\<open>get_tv_show_with_seasons\<close> with the same show id returns such a row when
  \<^verbatim>\<open>tv_shows\<close> has a row with that id; and no read returns a row for the new season
  when it has none.
\<close>

theorem C6_insert_then_read:
  "(well_formed c \<and> in_int64 mb \<and> in_int64 (next_rowid (movies c))
      \<and> \<not> list_ex (\<lambda>r. lookup r ''name'' = VText name) (trows (movies c)) \<longrightarrow>
      fst (add_movie c (VText name) (VInt mb) (VText prof)) = Inr ()
      \<and> fst (get_movie (snd (add_movie c (VText name) (VInt mb) (VText prof)))
               (VInt (next_rowid (movies c)))) =
          Inr (Some [(''id'', VInt (next_rowid (movies c))), (''name'', VText name),
                     (''max_size_mb'', VInt mb), (''resolution_profile'', VText prof),
                     (''state'', VText SEARCHING), (''hash'', VNull)]))
   \<and> (well_formed c \<and> in_int64 mb \<and> in_int64 (next_rowid (tv_shows c))
      \<and> \<not> list_ex (\<lambda>r. lookup r ''name'' = VText name) (trows (tv_shows c)) \<longrightarrow>
      fst (add_tv_show c (VText name) (VInt mb) (VText prof)) = Inr ()
      \<and> fst (get_tv_show (snd (add_tv_show c (VText name) (VInt mb) (VText prof)))
               (VInt (next_rowid (tv_shows c)))) =
          Inr (Some [(''id'', VInt (next_rowid (tv_shows c))), (''name'', VText name),
                     (''max_episode_size_mb'', VInt mb), (''resolution_profile'', VText prof),
                     (''state'', VText SEARCHING)]))
   \<and> (bindable k \<and> bindable sn \<and> in_int64 ep \<and> in_int64 (next_rowid (tv_show_seasons c))
      \<and> modelled INTEGER k \<and> modelled INTEGER sn
      \<and> apply_affinity INTEGER sn \<noteq> VNull
      \<and> (apply_affinity INTEGER k = VNull
          \<or> \<not> list_ex (\<lambda>r. lookup r ''show_id'' = apply_affinity INTEGER k
                           \<and> lookup r ''season_number'' = apply_affinity INTEGER sn)
                 (trows (tv_show_seasons c))) \<longrightarrow>
      fst (add_tv_show_season c k sn (VInt ep)) = Inr ()
      \<and> (\<exists>all byshow.
            fst (get_all_tv_shows_with_seasons (snd (add_tv_show_season c k sn (VInt ep)))) = Inr all
            \<and> fst (get_tv_show_with_seasons (snd (add_tv_show_season c k sn (VInt ep))) k) = Inr byshow
            \<and> byshow \<subseteq># all
            \<and> (\<forall>r\<in>#all. lookup r ''season_id'' = VInt (next_rowid (tv_show_seasons c)) \<longrightarrow>
                 lookup r ''show_id'' = apply_affinity INTEGER k
                 \<and> lookup r ''season_number'' = apply_affinity INTEGER sn
                 \<and> lookup r ''season_number_episodes'' = VInt ep
                 \<and> lookup r ''season_state'' = VText SEARCHING
                 \<and> lookup r ''season_hash'' = VNull)
            \<and> (list_ex (\<lambda>sh. sql_eq (lookup sh ''id'') (apply_affinity INTEGER k)) (trows (tv_shows c)) \<longrightarrow>
                 (\<exists>r. r \<in># byshow \<and> lookup r ''season_id'' = VInt (next_rowid (tv_show_seasons c))))
            \<and> (\<not> list_ex (\<lambda>sh. sql_eq (lookup sh ''id'') (apply_affinity INTEGER k)) (trows (tv_shows c)) \<longrightarrow>
                 \<not> (\<exists>r. r \<in># all \<and> lookup r ''season_id'' = VInt (next_rowid (tv_show_seasons c))))))"
proof (intro conjI impI; elim conjE)
  assume wf: "well_formed c" and b: "in_int64 mb" "in_int64 (next_rowid (movies c))"
    and new: "\<not> list_ex (\<lambda>r. lookup r ''name'' = VText name) (trows (movies c))"
  let ?r = "[(''id'', VInt (next_rowid (movies c))), (''name'', VText name),
             (''max_size_mb'', VInt mb), (''resolution_profile'', VText prof),
             (''state'', VText SEARCHING), (''hash'', VNull)]"
  note ok = add_movie_ok [OF b(1) new, of prof]
  show "fst (add_movie c (VText name) (VInt mb) (VText prof)) = Inr ()"
    by (simp add: ok)
  have cols: "has_columns movies_def (movies (snd (add_movie c (VText name) (VInt mb) (VText prof))))"
    using wf by (simp add: ok well_formed_def has_columns_def column_names_def movies_def_def)
  have rid: "lookup ?r ''id'' = VInt (next_rowid (movies c))"
    by (simp add: lookup_def)
  have "filter (\<lambda>r. lookup r ''id'' = VInt (next_rowid (movies c)))
          (trows (movies (snd (add_movie c (VText name) (VInt mb) (VText prof))))) = [?r]"
    by (simp add: ok filter_fresh_id rid)
  then show "fst (get_movie (snd (add_movie c (VText name) (VInt mb) (VText prof)))
               (VInt (next_rowid (movies c)))) = Inr (Some ?r)"
    by (simp add: get_movie_rows [OF b(2) cols])
next
  assume wf: "well_formed c" and b: "in_int64 mb" "in_int64 (next_rowid (tv_shows c))"
    and new: "\<not> list_ex (\<lambda>r. lookup r ''name'' = VText name) (trows (tv_shows c))"
  let ?r = "[(''id'', VInt (next_rowid (tv_shows c))), (''name'', VText name),
             (''max_episode_size_mb'', VInt mb), (''resolution_profile'', VText prof),
             (''state'', VText SEARCHING)]"
  note ok = add_tv_show_ok [OF b(1) new, of prof]
  show "fst (add_tv_show c (VText name) (VInt mb) (VText prof)) = Inr ()"
    by (simp add: ok)
  have cols: "has_columns tv_shows_def (tv_shows (snd (add_tv_show c (VText name) (VInt mb) (VText prof))))"
    using wf by (simp add: ok well_formed_def has_columns_def column_names_def tv_shows_def_def)
  have rid: "lookup ?r ''id'' = VInt (next_rowid (tv_shows c))"
    by (simp add: lookup_def)
  have "filter (\<lambda>r. lookup r ''id'' = VInt (next_rowid (tv_shows c)))
          (trows (tv_shows (snd (add_tv_show c (VText name) (VInt mb) (VText prof))))) = [?r]"
    by (simp add: ok filter_fresh_id rid)
  then show "fst (get_tv_show (snd (add_tv_show c (VText name) (VInt mb) (VText prof)))
               (VInt (next_rowid (tv_shows c)))) = Inr (Some ?r)"
    by (simp add: get_tv_show_rows [OF b(2) cols])
next
  assume b: "bindable k" "bindable sn" "in_int64 ep"
    and nn: "apply_affinity INTEGER sn \<noteq> VNull"
    and new: "apply_affinity INTEGER k = VNull
          \<or> \<not> list_ex (\<lambda>r. lookup r ''show_id'' = apply_affinity INTEGER k
                           \<and> lookup r ''season_number'' = apply_affinity INTEGER sn)
                 (trows (tv_show_seasons c))"
  let ?c = "snd (add_tv_show_season c k sn (VInt ep))"
  let ?n = "next_rowid (tv_show_seasons c)"
  define k' where "k' = apply_affinity INTEGER k"
  define sn' where "sn' = apply_affinity INTEGER sn"
  define rnew where "rnew = [(''id'', VInt ?n), (''show_id'', k'), (''season_number'', sn'),
             (''season_number_episodes'', VInt ep), (''state'', VText SEARCHING), (''hash'', VNull)]"
  have ok: "add_tv_show_season c k sn (VInt ep) = (Inr (),
      (execute c ''INSERT INTO tv_show_seasons(show_id,season_number, season_number_episodes) VALUES(?,?,?)'')
        \<lparr>tv_show_seasons := \<lparr>trows = trows (tv_show_seasons c) @ [rnew], tseq = ?n\<rparr>\<rparr>)"
    unfolding rnew_def k'_def sn'_def using b nn new by (intro add_tv_show_season_stored)
  show "fst (add_tv_show_season c k sn (VInt ep)) = Inr ()"
    by (simp add: ok)
  let ?all = "tv_shows_with_seasons_view ?c"
  let ?byshow = "filter_mset (\<lambda>r. sql_eq (lookup r ''show_id'') k') ?all"
  have tabs: "trows (tv_shows ?c) = trows (tv_shows c)"
    "trows (tv_show_seasons ?c) = trows (tv_show_seasons c) @ [rnew]"
    by (simp_all add: ok)
  have fields: "lookup rnew ''id'' = VInt ?n" "lookup rnew ''show_id'' = k'"
    "lookup rnew ''season_number'' = sn'" "lookup rnew ''season_number_episodes'' = VInt ep"
    "lookup rnew ''state'' = VText SEARCHING" "lookup rnew ''hash'' = VNull"
    by (simp_all add: lookup_def rnew_def)
  have rows_new: "\<exists>s. s \<in> set (trows (tv_shows c)) \<and> sql_eq (lookup s ''id'') k' \<and> r = view_row s rnew"
    if r: "r \<in># ?all" and sid: "lookup r ''season_id'' = VInt ?n" for r
  proof -
    from r obtain s se where r': "r = view_row s se" "s \<in> set (trows (tv_shows c))"
        "se \<in> set (trows (tv_show_seasons c) @ [rnew])" "sql_eq (lookup s ''id'') (lookup se ''show_id'')"
      unfolding view_rows_set tabs by auto
    from sid r'(1) have "lookup se ''id'' = VInt ?n" by simp
    with r'(3) have "se = rnew"
      using next_rowid_fresh [of se "tv_show_seasons c"] by auto
    with r' fields(2) show ?thesis by auto
  qed
  have all: "\<forall>r\<in>#?all. lookup r ''season_id'' = VInt ?n \<longrightarrow>
                 lookup r ''show_id'' = k' \<and> lookup r ''season_number'' = sn'
                 \<and> lookup r ''season_number_episodes'' = VInt ep
                 \<and> lookup r ''season_state'' = VText SEARCHING
                 \<and> lookup r ''season_hash'' = VNull"
  proof (intro ballI impI)
    fix r assume "r \<in># ?all" "lookup r ''season_id'' = VInt ?n"
    from rows_new [OF this] obtain s where "sql_eq (lookup s ''id'') k'" "r = view_row s rnew"
      by blast
    with fields show "lookup r ''show_id'' = k' \<and> lookup r ''season_number'' = sn'
                 \<and> lookup r ''season_number_episodes'' = VInt ep
                 \<and> lookup r ''season_state'' = VText SEARCHING
                 \<and> lookup r ''season_hash'' = VNull"
      by (auto simp: sql_eq_def)
  qed
  have ex: "\<exists>r. r \<in># ?byshow \<and> lookup r ''season_id'' = VInt ?n"
    if "list_ex (\<lambda>sh. sql_eq (lookup sh ''id'') k') (trows (tv_shows c))"
  proof -
    from that obtain s where s: "s \<in> set (trows (tv_shows c))" "sql_eq (lookup s ''id'') k'"
      by (auto simp: list_ex_iff)
    then have "view_row s rnew \<in># ?all"
      unfolding view_rows_set tabs using fields(2)
      by (intro CollectI exI [of _ s] exI [of _ rnew]) simp
    with s(2) fields(1) show ?thesis
      by (intro exI [of _ "view_row s rnew"]) simp
  qed
  have none: "\<not> (\<exists>r. r \<in># ?all \<and> lookup r ''season_id'' = VInt ?n)"
    if "\<not> list_ex (\<lambda>sh. sql_eq (lookup sh ''id'') k') (trows (tv_shows c))"
    using that rows_new by (auto simp: list_ex_iff)
  have sub: "?byshow \<subseteq># ?all"
    by simp
  have reads: "fst (get_all_tv_shows_with_seasons ?c) = Inr ?all"
    "fst (get_tv_show_with_seasons ?c k) = Inr ?byshow"
    unfolding k'_def by (simp_all add: get_all_tv_shows_with_seasons_rows get_tv_show_with_seasons_param b)
  from reads sub all ex none
  show "\<exists>all byshow.
            fst (get_all_tv_shows_with_seasons ?c) = Inr all
            \<and> fst (get_tv_show_with_seasons ?c k) = Inr byshow
            \<and> byshow \<subseteq># all
            \<and> (\<forall>r\<in>#all. lookup r ''season_id'' = VInt ?n \<longrightarrow>
                 lookup r ''show_id'' = apply_affinity INTEGER k
                 \<and> lookup r ''season_number'' = apply_affinity INTEGER sn
                 \<and> lookup r ''season_number_episodes'' = VInt ep
                 \<and> lookup r ''season_state'' = VText SEARCHING
                 \<and> lookup r ''season_hash'' = VNull)
            \<and> (list_ex (\<lambda>sh. sql_eq (lookup sh ''id'') (apply_affinity INTEGER k)) (trows (tv_shows c)) \<longrightarrow>
                 (\<exists>r. r \<in># byshow \<and> lookup r ''season_id'' = VInt ?n))
            \<and> (\<not> list_ex (\<lambda>sh. sql_eq (lookup sh ''id'') (apply_affinity INTEGER k)) (trows (tv_shows c)) \<longrightarrow>
                 \<not> (\<exists>r. r \<in># all \<and> lookup r ''season_id'' = VInt ?n))"
    unfolding k'_def sn'_def by blast
qed
text \<open>
  On the example store: the movie "Heat" gets the id 2 and reads back with its values;
  the show "Baz" gets the id 3; the season 1 of show 2, given as the texts \<^verbatim>\<open>'2'\<close> and
  \<^verbatim>\<open>'1'\<close>, gets the id 6 and is returned by \<^verbatim>\<open>get_tv_show_with_seasons('2')\<close> with
  the integers 2 and 1; a season of the missing show 42 is returned by no read.
\<close>

theorem C6_insert_then_read_witness:
  "fst (add_movie example_store (VText ''Heat'') (VInt 900) (VText ''720p'')) = Inr ()
   \<and> fst (get_movie (snd (add_movie example_store (VText ''Heat'') (VInt 900) (VText ''720p''))) (VInt 2)) =
       Inr (Some [(''id'', VInt 2), (''name'', VText ''Heat''), (''max_size_mb'', VInt 900),
                  (''resolution_profile'', VText ''720p''), (''state'', VText SEARCHING),
                  (''hash'', VNull)])
   \<and> fst (add_tv_show example_store (VText ''Baz'') (VInt 450) (VText ''720p'')) = Inr ()
   \<and> fst (get_tv_show (snd (add_tv_show example_store (VText ''Baz'') (VInt 450) (VText ''720p''))) (VInt 3)) =
       Inr (Some [(''id'', VInt 3), (''name'', VText ''Baz''), (''max_episode_size_mb'', VInt 450),
                  (''resolution_profile'', VText ''720p''), (''state'', VText SEARCHING)])
   \<and> fst (add_tv_show_season example_store (VText ''2'') (VText ''1'') (VInt 6)) = Inr ()
   \<and> (\<exists>all byshow.
         fst (get_all_tv_shows_with_seasons
                (snd (add_tv_show_season example_store (VText ''2'') (VText ''1'') (VInt 6)))) = Inr all
         \<and> fst (get_tv_show_with_seasons
                (snd (add_tv_show_season example_store (VText ''2'') (VText ''1'') (VInt 6))) (VText ''2''))
             = Inr byshow
         \<and> (\<forall>r\<in>#all. lookup r ''season_id'' = VInt 6 \<longrightarrow>
              lookup r ''show_id'' = VInt 2 \<and> lookup r ''season_number'' = VInt 1
              \<and> lookup r ''season_number_episodes'' = VInt 6
              \<and> lookup r ''season_state'' = VText SEARCHING
              \<and> lookup r ''season_hash'' = VNull)
         \<and> (\<exists>r. r \<in># byshow \<and> lookup r ''season_id'' = VInt 6))
   \<and> fst (add_tv_show_season example_store (VInt 42) (VInt 1) (VInt 6)) = Inr ()
   \<and> (\<exists>all. fst (get_all_tv_shows_with_seasons
                   (snd (add_tv_show_season example_store (VInt 42) (VInt 1) (VInt 6)))) = Inr all
         \<and> \<not> (\<exists>r. r \<in># all \<and> lookup r ''season_id'' = VInt 6))"
proof -
  have wf: "well_formed example_store" by code_simp
  have b: "in_int64 900" "in_int64 450" "in_int64 2" "in_int64 3" "in_int64 6"
    "bindable (VText ''2'')" "bindable (VText ''1'')" "bindable (VInt 42)" "bindable (VInt 1)"
    by code_simp+
  have m: "modelled INTEGER (VText ''2'')" "modelled INTEGER (VText ''1'')"
    "modelled INTEGER (VInt 42)" "modelled INTEGER (VInt 1)"
    by code_simp+
  have a: "apply_affinity INTEGER (VText ''2'') = VInt 2" "apply_affinity INTEGER (VText ''1'') = VInt 1"
    "apply_affinity INTEGER (VInt 42) = VInt 42" "apply_affinity INTEGER (VInt 1) = VInt 1"
    by code_simp+
  have ids: "next_rowid (movies example_store) = 2" "next_rowid (tv_shows example_store) = 3"
    "next_rowid (tv_show_seasons example_store) = 6"
    by code_simp+
  have new: "\<not> list_ex (\<lambda>r. lookup r ''name'' = VText ''Heat'') (trows (movies example_store))"
    "\<not> list_ex (\<lambda>r. lookup r ''name'' = VText ''Baz'') (trows (tv_shows example_store))"
    "\<not> list_ex (\<lambda>r. lookup r ''show_id'' = VInt 2 \<and> lookup r ''season_number'' = VInt 1)
         (trows (tv_show_seasons example_store))"
    "\<not> list_ex (\<lambda>r. lookup r ''show_id'' = VInt 42 \<and> lookup r ''season_number'' = VInt 1)
         (trows (tv_show_seasons example_store))"
    by code_simp+
  have sh: "list_ex (\<lambda>sh. sql_eq (lookup sh ''id'') (VInt 2)) (trows (tv_shows example_store))"
    "\<not> list_ex (\<lambda>sh. sql_eq (lookup sh ''id'') (VInt 42)) (trows (tv_shows example_store))"
    by code_simp+
  note t1 = C6_insert_then_read [of example_store 900 "''Heat''" "''720p''" "VText ''2''" "VText ''1''" 6]
  note t2 = C6_insert_then_read [of example_store 450 "''Baz''" "''720p''" "VInt 42" "VInt 1" 6]
  from t1 wf b new ids
  have p1: "fst (add_movie example_store (VText ''Heat'') (VInt 900) (VText ''720p'')) = Inr ()
   \<and> fst (get_movie (snd (add_movie example_store (VText ''Heat'') (VInt 900) (VText ''720p''))) (VInt 2)) =
       Inr (Some [(''id'', VInt 2), (''name'', VText ''Heat''), (''max_size_mb'', VInt 900),
                  (''resolution_profile'', VText ''720p''), (''state'', VText SEARCHING),
                  (''hash'', VNull)])"
    by simp
  from t2 wf b new ids
  have p2: "fst (add_tv_show example_store (VText ''Baz'') (VInt 450) (VText ''720p'')) = Inr ()
   \<and> fst (get_tv_show (snd (add_tv_show example_store (VText ''Baz'') (VInt 450) (VText ''720p''))) (VInt 3)) =
       Inr (Some [(''id'', VInt 3), (''name'', VText ''Baz''), (''max_episode_size_mb'', VInt 450),
                  (''resolution_profile'', VText ''720p''), (''state'', VText SEARCHING)])"
    by simp
  have h1a: "apply_affinity INTEGER (VText ''1'') \<noteq> VNull"
    and h2a: "apply_affinity INTEGER (VInt 1) \<noteq> VNull"
    by code_simp+
  have h1b: "\<not> list_ex (\<lambda>r. lookup r ''show_id'' = apply_affinity INTEGER (VText ''2'')
                           \<and> lookup r ''season_number'' = apply_affinity INTEGER (VText ''1''))
                 (trows (tv_show_seasons example_store))"
    unfolding a by (rule new(3))
  have h2b: "\<not> list_ex (\<lambda>r. lookup r ''show_id'' = apply_affinity INTEGER (VInt 42)
                           \<and> lookup r ''season_number'' = apply_affinity INTEGER (VInt 1))
                 (trows (tv_show_seasons example_store))"
    unfolding a by (rule new(4))
  have h1: "bindable (VText ''2'') \<and> bindable (VText ''1'') \<and> in_int64 6
      \<and> in_int64 (next_rowid (tv_show_seasons example_store))
      \<and> modelled INTEGER (VText ''2'') \<and> modelled INTEGER (VText ''1'')
      \<and> apply_affinity INTEGER (VText ''1'') \<noteq> VNull
      \<and> (apply_affinity INTEGER (VText ''2'') = VNull
          \<or> \<not> list_ex (\<lambda>r. lookup r ''show_id'' = apply_affinity INTEGER (VText ''2'')
                           \<and> lookup r ''season_number'' = apply_affinity INTEGER (VText ''1''))
                 (trows (tv_show_seasons example_store)))"
    using b m h1a h1b by (simp add: ids)
  have h2: "bindable (VInt 42) \<and> bindable (VInt 1) \<and> in_int64 6
      \<and> in_int64 (next_rowid (tv_show_seasons example_store))
      \<and> modelled INTEGER (VInt 42) \<and> modelled INTEGER (VInt 1)
      \<and> apply_affinity INTEGER (VInt 1) \<noteq> VNull
      \<and> (apply_affinity INTEGER (VInt 42) = VNull
          \<or> \<not> list_ex (\<lambda>r. lookup r ''show_id'' = apply_affinity INTEGER (VInt 42)
                           \<and> lookup r ''season_number'' = apply_affinity INTEGER (VInt 1))
                 (trows (tv_show_seasons example_store)))"
    using b m h2a h2b by (simp add: ids)
  from t1 h1 sh(1)
  have p3: "fst (add_tv_show_season example_store (VText ''2'') (VText ''1'') (VInt 6)) = Inr ()
   \<and> (\<exists>all byshow.
         fst (get_all_tv_shows_with_seasons
                (snd (add_tv_show_season example_store (VText ''2'') (VText ''1'') (VInt 6)))) = Inr all
         \<and> fst (get_tv_show_with_seasons
                (snd (add_tv_show_season example_store (VText ''2'') (VText ''1'') (VInt 6))) (VText ''2''))
             = Inr byshow
         \<and> (\<forall>r\<in>#all. lookup r ''season_id'' = VInt 6 \<longrightarrow>
              lookup r ''show_id'' = VInt 2 \<and> lookup r ''season_number'' = VInt 1
              \<and> lookup r ''season_number_episodes'' = VInt 6
              \<and> lookup r ''season_state'' = VText SEARCHING
              \<and> lookup r ''season_hash'' = VNull)
         \<and> (\<exists>r. r \<in># byshow \<and> lookup r ''season_id'' = VInt 6))"
    unfolding a ids by blast
  from t2 h2 sh(2)
  have p4: "fst (add_tv_show_season example_store (VInt 42) (VInt 1) (VInt 6)) = Inr ()
   \<and> (\<exists>all. fst (get_all_tv_shows_with_seasons
                   (snd (add_tv_show_season example_store (VInt 42) (VInt 1) (VInt 6)))) = Inr all
         \<and> \<not> (\<exists>r. r \<in># all \<and> lookup r ''season_id'' = VInt 6))"
    unfolding a ids by blast
  from p1 p2 p3 p4 show ?thesis by blast
qed

subsection \<open>C7: the view is an inner join\<close>

text \<open>
  C7: the rows that \<^verbatim>\<open>get_all_tv_shows_with_seasons\<close> returns are, as a multiset, one
  row of the view for every (show, season) pair where the season's \<^verbatim>\<open>show_id\<close> equals
  the show's \<^verbatim>\<open>id\<close>, and nothing else; a show without any such season has no row
  among them; and the rows that \<^verbatim>\<open>get_tv_show_with_seasons(n)\<close> returns are those of
  the same rows whose \<^verbatim>\<open>show_id\<close> is \<open>n\<close>. Nothing is said of the order of the rows.
\<close>

theorem C7_view_is_inner_join:
  "fst (get_all_tv_shows_with_seasons c) =
     Inr (image_mset (\<lambda>(sh, se). view_row sh se) (mset (show_season_pairs c)))
   \<and> (sh \<in> set (trows (tv_shows c))
        \<and> \<not> list_ex (\<lambda>se. sql_eq (lookup sh ''id'') (lookup se ''show_id'')) (trows (tv_show_seasons c))
      \<longrightarrow> \<not> (\<exists>r. r \<in># image_mset (\<lambda>(sh, se). view_row sh se) (mset (show_season_pairs c))
                 \<and> lookup r ''show_id'' = lookup sh ''id''))
   \<and> (in_int64 n \<longrightarrow>
        fst (get_tv_show_with_seasons c (VInt n)) =
          Inr (filter_mset (\<lambda>r. lookup r ''show_id'' = VInt n)
                 (image_mset (\<lambda>(sh, se). view_row sh se) (mset (show_season_pairs c)))))"
proof -
  have v: "image_mset (\<lambda>(sh, se). view_row sh se) (mset (show_season_pairs c)) =
           tv_shows_with_seasons_view c"
    by (simp add: view_as_pairs)
  have absent: "\<not> (\<exists>r. r \<in># tv_shows_with_seasons_view c \<and> lookup r ''show_id'' = lookup sh ''id'')"
    if "\<not> list_ex (\<lambda>se. sql_eq (lookup sh ''id'') (lookup se ''show_id'')) (trows (tv_show_seasons c))"
    using that by (auto simp: list_ex_iff view_rows_set)
  show ?thesis
    unfolding v using absent
    by (simp add: get_all_tv_shows_with_seasons_rows get_tv_show_with_seasons_rows)
qed

text \<open>
  On the example store the pairs are the three seasons of show 1 ("Foo"); show 2 has no
  season and no row, and the seasons of the missing show 7 and of no show have no row
  either.
\<close>

theorem C7_view_is_inner_join_witness:
  "fst (get_all_tv_shows_with_seasons example_store) =
     Inr (image_mset (\<lambda>(sh, se). view_row sh se) (mset (show_season_pairs example_store)))
   \<and> mset (map (\<lambda>(sh, se). (lookup sh ''name'', lookup se ''season_number''))
              (show_season_pairs example_store)) =
       {#(VText ''Foo'', VInt 1), (VText ''Foo'', VInt 2), (VText ''Foo'', VInt 3)#}
   \<and> \<not> (\<exists>r. r \<in># image_mset (\<lambda>(sh, se). view_row sh se) (mset (show_season_pairs example_store))
            \<and> lookup r ''show_id'' = VInt 2)
   \<and> in_int64 2
   \<and> fst (get_tv_show_with_seasons example_store (VInt 2)) = Inr {#}"
proof -
  let ?bar = "[(''id'', VInt 2), (''name'', VText ''Bar''), (''max_episode_size_mb'', VInt 300),
               (''resolution_profile'', VText ''720p''), (''state'', VText ''SEARCHING'')]"
  have sh: "?bar \<in> set (trows (tv_shows example_store))" by code_simp
  have none: "\<not> list_ex (\<lambda>se. sql_eq (lookup ?bar ''id'') (lookup se ''show_id''))
                   (trows (tv_show_seasons example_store))" by code_simp
  have id2: "lookup ?bar ''id'' = VInt 2" by code_simp
  have n: "in_int64 2" by code_simp
  have pairs: "mset (map (\<lambda>(sh, se). (lookup sh ''name'', lookup se ''season_number''))
                 (show_season_pairs example_store)) =
               {#(VText ''Foo'', VInt 1), (VText ''Foo'', VInt 2), (VText ''Foo'', VInt 3)#}"
    by code_simp
  have f: "filter_mset (\<lambda>r. lookup r ''show_id'' = VInt 2)
             (image_mset (\<lambda>(sh, se). view_row sh se) (mset (show_season_pairs example_store))) = {#}"
    by code_simp
  from C7_view_is_inner_join [of example_store ?bar 2] sh none n pairs f
  show ?thesis unfolding id2 by simp
qed

subsection \<open>C8: the foreign key of a season is not enforced\<close>

text \<open>
  C8: \<^verbatim>\<open>add_tv_show_season\<close> with a NULL show id returns normally and stores the
  season, whatever the store holds; and with an integer show id that is the id of no
  row of \<^verbatim>\<open>tv_shows\<close> it returns normally and stores the season with that show id,
  when the season number and the episode count are integers and no season carries the
  same pair already. The connection never switches foreign keys on, so that no
  operation checks the link from a season to its show.
\<close>

theorem C8_orphan_season_accepted:
  "(in_int64 sn \<and> in_int64 ep \<longrightarrow>
      fst (add_tv_show_season c VNull (VInt sn) (VInt ep)) = Inr ()
      \<and> trows (tv_show_seasons (snd (add_tv_show_season c VNull (VInt sn) (VInt ep)))) =
          trows (tv_show_seasons c) @
            [[(''id'', VInt (next_rowid (tv_show_seasons c))), (''show_id'', VNull),
              (''season_number'', VInt sn), (''season_number_episodes'', VInt ep),
              (''state'', VText SEARCHING), (''hash'', VNull)]])
   \<and> (in_int64 k \<and> in_int64 sn \<and> in_int64 ep
        \<and> \<not> list_ex (\<lambda>sh. lookup sh ''id'' = VInt k) (trows (tv_shows c))
        \<and> \<not> list_ex (\<lambda>r. lookup r ''show_id'' = VInt k \<and> lookup r ''season_number'' = VInt sn)
               (trows (tv_show_seasons c)) \<longrightarrow>
      fst (add_tv_show_season c (VInt k) (VInt sn) (VInt ep)) = Inr ()
      \<and> trows (tv_show_seasons (snd (add_tv_show_season c (VInt k) (VInt sn) (VInt ep)))) =
          trows (tv_show_seasons c) @
            [[(''id'', VInt (next_rowid (tv_show_seasons c))), (''show_id'', VInt k),
              (''season_number'', VInt sn), (''season_number_episodes'', VInt ep),
              (''state'', VText SEARCHING), (''hash'', VNull)]]
      \<and> tv_shows (snd (add_tv_show_season c (VInt k) (VInt sn) (VInt ep))) = tv_shows c)"
proof (intro conjI impI; elim conjE)
  assume "in_int64 sn" "in_int64 ep"
  then have ok: "add_tv_show_season c VNull (VInt sn) (VInt ep) = (Inr (),
      (execute c ''INSERT INTO tv_show_seasons(show_id,season_number, season_number_episodes) VALUES(?,?,?)'')
        \<lparr>tv_show_seasons := \<lparr>trows = trows (tv_show_seasons c) @
            [[(''id'', VInt (next_rowid (tv_show_seasons c))), (''show_id'', VNull),
              (''season_number'', VInt sn), (''season_number_episodes'', VInt ep),
              (''state'', VText SEARCHING), (''hash'', VNull)]],
          tseq = next_rowid (tv_show_seasons c)\<rparr>\<rparr>)"
    by (intro add_tv_show_season_ok) simp_all
  show "fst (add_tv_show_season c VNull (VInt sn) (VInt ep)) = Inr ()"
    "trows (tv_show_seasons (snd (add_tv_show_season c VNull (VInt sn) (VInt ep)))) =
          trows (tv_show_seasons c) @
            [[(''id'', VInt (next_rowid (tv_show_seasons c))), (''show_id'', VNull),
              (''season_number'', VInt sn), (''season_number_episodes'', VInt ep),
              (''state'', VText SEARCHING), (''hash'', VNull)]]"
    by (simp_all add: ok)
next
  assume "in_int64 k" "in_int64 sn" "in_int64 ep"
    "\<not> list_ex (\<lambda>r. lookup r ''show_id'' = VInt k \<and> lookup r ''season_number'' = VInt sn)
         (trows (tv_show_seasons c))"
  then have ok: "add_tv_show_season c (VInt k) (VInt sn) (VInt ep) = (Inr (),
      (execute c ''INSERT INTO tv_show_seasons(show_id,season_number, season_number_episodes) VALUES(?,?,?)'')
        \<lparr>tv_show_seasons := \<lparr>trows = trows (tv_show_seasons c) @
            [[(''id'', VInt (next_rowid (tv_show_seasons c))), (''show_id'', VInt k),
              (''season_number'', VInt sn), (''season_number_episodes'', VInt ep),
              (''state'', VText SEARCHING), (''hash'', VNull)]],
          tseq = next_rowid (tv_show_seasons c)\<rparr>\<rparr>)"
    by (intro add_tv_show_season_ok) simp_all
  show "fst (add_tv_show_season c (VInt k) (VInt sn) (VInt ep)) = Inr ()"
    "trows (tv_show_seasons (snd (add_tv_show_season c (VInt k) (VInt sn) (VInt ep)))) =
          trows (tv_show_seasons c) @
            [[(''id'', VInt (next_rowid (tv_show_seasons c))), (''show_id'', VInt k),
              (''season_number'', VInt sn), (''season_number_episodes'', VInt ep),
              (''state'', VText SEARCHING), (''hash'', VNull)]]"
    "tv_shows (snd (add_tv_show_season c (VInt k) (VInt sn) (VInt ep))) = tv_shows c"
    by (simp_all add: ok)
qed

text \<open>
  On the empty store, which has no show at all: a season of show 42 and a season of no
  show are both stored.
\<close>

theorem C8_orphan_season_accepted_witness:
  "fst (add_tv_show_season empty_store VNull (VInt 1) (VInt 10)) = Inr ()
   \<and> trows (tv_show_seasons (snd (add_tv_show_season empty_store VNull (VInt 1) (VInt 10)))) =
       [[(''id'', VInt 1), (''show_id'', VNull), (''season_number'', VInt 1),
         (''season_number_episodes'', VInt 10), (''state'', VText SEARCHING), (''hash'', VNull)]]
   \<and> trows (tv_shows empty_store) = []
   \<and> fst (add_tv_show_season empty_store (VInt 42) (VInt 1) (VInt 10)) = Inr ()
   \<and> trows (tv_show_seasons (snd (add_tv_show_season empty_store (VInt 42) (VInt 1) (VInt 10)))) =
       [[(''id'', VInt 1), (''show_id'', VInt 42), (''season_number'', VInt 1),
         (''season_number_episodes'', VInt 10), (''state'', VText SEARCHING), (''hash'', VNull)]]"
proof -
  have b: "in_int64 42" "in_int64 1" "in_int64 10"
    by code_simp+
  have e: "trows (tv_shows empty_store) = []" "trows (tv_show_seasons empty_store) = []"
    "next_rowid (tv_show_seasons empty_store) = 1"
    by code_simp+
  from C8_orphan_season_accepted [of 1 10 empty_store 42] b
  show ?thesis
    by (simp add: e)
qed

subsection \<open>C9: deleting a show does not touch its seasons\<close>

text \<open>
  C9: \<^verbatim>\<open>delete_tv_show\<close> leaves the table of the seasons (and the table of the movies)
  exactly as it was, whatever the id; with an integer id of 64 bits it returns normally
  and removes from \<^verbatim>\<open>tv_shows\<close> the rows of that id and no other.
\<close>

theorem C9_delete_tv_show_no_cascade:
  "tv_show_seasons (snd (delete_tv_show c i)) = tv_show_seasons c
   \<and> movies (snd (delete_tv_show c i)) = movies c
   \<and> (in_int64 n \<longrightarrow>
        fst (delete_tv_show c (VInt n)) = Inr ()
        \<and> trows (tv_shows (snd (delete_tv_show c (VInt n)))) =
            filter (\<lambda>r. lookup r ''id'' \<noteq> VInt n) (trows (tv_shows c))
        \<and> tseq (tv_shows (snd (delete_tv_show c (VInt n)))) = tseq (tv_shows c))"
  by (simp add: delete_tv_show_def Let_def sql_delete_def split: option.splits)

text \<open>
  On the example store, deleting show 1 leaves show 2 alone in \<^verbatim>\<open>tv_shows\<close>, and the
  three seasons of show 1 are still in \<^verbatim>\<open>tv_show_seasons\<close>.
\<close>

theorem C9_delete_tv_show_no_cascade_witness:
  "in_int64 1
   \<and> tv_show_seasons (snd (delete_tv_show example_store (VInt 1))) = tv_show_seasons example_store
   \<and> fst (delete_tv_show example_store (VInt 1)) = Inr ()
   \<and> map (\<lambda>r. lookup r ''id'') (trows (tv_shows (snd (delete_tv_show example_store (VInt 1))))) = [VInt 2]
   \<and> length (filter (\<lambda>r. lookup r ''show_id'' = VInt 1)
        (trows (tv_show_seasons (snd (delete_tv_show example_store (VInt 1)))))) = 3"
proof -
  have n: "in_int64 1" by code_simp
  have f: "map (\<lambda>r. lookup r ''id'')
             (filter (\<lambda>r. lookup r ''id'' \<noteq> VInt 1) (trows (tv_shows example_store))) = [VInt 2]"
    by code_simp
  have l: "length (filter (\<lambda>r. lookup r ''show_id'' = VInt 1) (trows (tv_show_seasons example_store))) = 3"
    by code_simp
  from C9_delete_tv_show_no_cascade [of example_store "VInt 1" 1] n f l
  show ?thesis by simp
qed

subsection \<open>C10: the set of the states of a show's seasons\<close>

text \<open>
  C10, as stated: for every show id, \<^verbatim>\<open>get_season_states\<close> returns the set of the
  states of the seasons of that show. The operation reads the states through the view,
  an inner join with \<^verbatim>\<open>tv_shows\<close>: seasons whose show has no row are not in the view.
  In the example store the season with id 4 carries \<^verbatim>\<open>show_id\<close> 7 and the state
  SEARCHING, there is no show 7, and \<^verbatim>\<open>get_season_states(7)\<close> is the empty set.
\<close>

theorem C10_orphan_seasons_not_seen:
  "fst (get_season_states example_store (VInt 7)) = Inr {}
   \<and> map (\<lambda>se. (lookup se ''id'', lookup se ''state''))
        (filter (\<lambda>se. lookup se ''show_id'' = VInt 7) (trows (tv_show_seasons example_store))) =
       [(VInt 4, VText ''SEARCHING'')]"
  by code_simp

text \<open>
  C10, amended: for a show id \<open>n\<close> (an integer of 64 bits) that is the id of a row of
  \<^verbatim>\<open>tv_shows\<close>, \<^verbatim>\<open>get_season_states(n)\<close> returns the set of the states of the
  seasons whose \<^verbatim>\<open>show_id\<close> is \<open>n\<close>: each state among them once, as the result is a
  set, and nothing else. For an id without a row in \<^verbatim>\<open>tv_shows\<close> the result is the
  empty set.
\<close>

theorem C10_season_states:
  assumes "in_int64 n"
  shows "fst (get_season_states c (VInt n)) =
           Inr (if list_ex (\<lambda>sh. lookup sh ''id'' = VInt n) (trows (tv_shows c))
                then set (map (\<lambda>se. lookup se ''state'')
                           (filter (\<lambda>se. lookup se ''show_id'' = VInt n) (trows (tv_show_seasons c))))
                else {})"
  unfolding get_season_states_view [OF assms] season_states_of_show ..

text \<open>
  On the example store: show 1 has seasons in the states SEEDING, SEEDING and COMPLETED,
  and the result has the two elements SEEDING and COMPLETED; show 2 has no season, and
  the result is empty.
\<close>

theorem C10_season_states_witness:
  "in_int64 1
   \<and> map (\<lambda>se. lookup se ''state'')
        (filter (\<lambda>se. lookup se ''show_id'' = VInt 1) (trows (tv_show_seasons example_store))) =
       [VText ''SEEDING'', VText ''SEEDING'', VText ''COMPLETED'']
   \<and> fst (get_season_states example_store (VInt 1)) = Inr {VText ''SEEDING'', VText ''COMPLETED''}
   \<and> fst (get_season_states example_store (VInt 2)) = Inr {}"
proof -
  have n: "in_int64 1" "in_int64 2" by code_simp+
  have sh: "list_ex (\<lambda>sh. lookup sh ''id'' = VInt 1) (trows (tv_shows example_store))"
    "list_ex (\<lambda>sh. lookup sh ''id'' = VInt 2) (trows (tv_shows example_store))"
    by code_simp+
  have st: "map (\<lambda>se. lookup se ''state'')
        (filter (\<lambda>se. lookup se ''show_id'' = VInt 1) (trows (tv_show_seasons example_store))) =
       [VText ''SEEDING'', VText ''SEEDING'', VText ''COMPLETED'']"
    "map (\<lambda>se. lookup se ''state'')
        (filter (\<lambda>se. lookup se ''show_id'' = VInt 2) (trows (tv_show_seasons example_store))) = []"
    by code_simp+
  from C10_season_states [OF n(1), of example_store] C10_season_states [OF n(2), of example_store]
  show ?thesis
    unfolding st using sh n by auto
qed

end
